theory Spec2Isabelle
  imports Complex_Main "HOL-Library.AList" "HOL-Library.Char_ord" "HOL-Library.List_Lexorder"
    "HOL-Library.Product_Lexorder"
begin

section \<open>Data frames\<close>

text \<open>
  The dashboard keeps its ledger in a pandas data frame. A cell is an integer, a text or the
  missing-value marker. A numeric column is an int64 column: its sums and absolute values
  wrap around at 64 bits, which \<open>wrap64\<close> writes out. A column that holds a missing value
  is a float64 column in pandas and one that holds a text is a column of Python objects;
  their numbers are represented by their integer values, and the rounding of float64
  beyond 53 bits and the unbounded integers of Python are outside this development.
\<close>

datatype cell = Num int | Txt string | NaN

definition wrap64 :: "int \<Rightarrow> int" where
  "wrap64 n =
     (if - 9223372036854775808 \<le> n \<and> n < 9223372036854775808 then n
      else (n + 9223372036854775808) mod 18446744073709551616 - 9223372036854775808)"

datatype py_error = KeyError "string list" | TypeError | ValueError

type_synonym row = "(string \<times> cell) list"

record table =
  columns :: "string list"
  rows :: "row list"

text \<open>A record that has no value for a column reads as missing there.\<close>

definition cell_at :: "row \<Rightarrow> string \<Rightarrow> cell" where
  "cell_at r c = (case map_of r c of Some v \<Rightarrow> v | None \<Rightarrow> NaN)"

text \<open>\<^verbatim>\<open>pd.DataFrame()\<close> and \<^verbatim>\<open>df.empty\<close>.\<close>

definition DataFrame :: table where
  "DataFrame = \<lparr>columns = [], rows = []\<rparr>"

definition is_empty :: "table \<Rightarrow> bool" where
  "is_empty df = (columns df = [] \<or> rows df = [])"

text \<open>\<^verbatim>\<open>df[c]\<close> raises KeyError on an absent column.\<close>

definition getitem :: "table \<Rightarrow> string \<Rightarrow> py_error + cell list" where
  "getitem df c =
     (if c \<in> set (columns df) then Inr (map (\<lambda>r. cell_at r c) (rows df)) else Inl (KeyError [c]))"

text \<open>\<^verbatim>\<open>df[mask]\<close> keeps the records whose mask entry is true.\<close>

definition select_rows :: "table \<Rightarrow> bool list \<Rightarrow> table" where
  "select_rows df keep = df\<lparr>rows := map fst (filter snd (zip (rows df) keep))\<rparr>"

text \<open>\<^verbatim>\<open>df[cols]\<close> with a list of names raises KeyError naming the absent ones.\<close>

definition getitems :: "table \<Rightarrow> string list \<Rightarrow> py_error + table" where
  "getitems df cs =
     (let missing = filter (\<lambda>c. c \<notin> set (columns df)) cs in
      if missing = [] then
        Inr \<lparr>columns = cs, rows = map (\<lambda>r. map (\<lambda>c. (c, cell_at r c)) cs) (rows df)\<rparr>
      else Inl (KeyError missing))"

definition all_months :: "string list" where
  "all_months = [''Jan'', ''Feb'', ''Mar'', ''Apr'', ''May'', ''Jun'',
                 ''Jul'', ''Aug'', ''Sep'', ''Oct'', ''Nov'', ''Dec'']"

subsection \<open>Melting\<close>

text \<open>
  \<^verbatim>\<open>frame.melt(id_vars, value_vars, var_name, value_name)\<close>: a ValueError when the frame
  already has a column called \<open>value_name\<close>, a KeyError naming the absent columns, and
  otherwise one long record per value column and record, value column by value column.
\<close>

definition long_row :: "string list \<Rightarrow> string \<Rightarrow> string \<Rightarrow> string \<Rightarrow> row \<Rightarrow> row" where
  "long_row id_vars var_name value_name v r =
     map (\<lambda>i. (i, cell_at r i)) id_vars @ [(var_name, Txt v), (value_name, cell_at r v)]"

definition melt :: "table \<Rightarrow> string list \<Rightarrow> string list \<Rightarrow> string \<Rightarrow> string \<Rightarrow> py_error + table" where
  "melt frame id_vars value_vars var_name value_name =
     (let missing = filter (\<lambda>c. c \<notin> set (columns frame)) (id_vars @ value_vars) in
      if value_name \<in> set (columns frame) then Inl ValueError
      else if missing \<noteq> [] then Inl (KeyError missing)
      else Inr \<lparr>columns = id_vars @ [var_name, value_name],
                rows = concat (map (\<lambda>v. map (long_row id_vars var_name value_name v) (rows frame))
                                   value_vars)\<rparr>)"

subsection \<open>Grouping and summing\<close>

text \<open>
  Addition of two values held in a column: numbers add as int64 values, texts concatenate,
  a number and a text raise TypeError.
\<close>

fun py_add :: "cell \<Rightarrow> cell \<Rightarrow> py_error + cell" where
  "py_add (Num a) (Num b) = Inr (Num (wrap64 (a + b)))"
| "py_add (Txt a) (Txt b) = Inr (Txt (a @ b))"
| "py_add _ _ = Inl TypeError"

fun add_all :: "cell \<Rightarrow> cell list \<Rightarrow> py_error + cell" where
  "add_all acc [] = Inr acc"
| "add_all acc (v # vs) =
     (case py_add acc v of Inl e \<Rightarrow> Inl e | Inr s \<Rightarrow> add_all s vs)"

text \<open>
  The sum of one group skips the missing values; the first value present starts the sum
  and a group with no value present sums to 0.
\<close>

definition group_sum :: "cell list \<Rightarrow> py_error + cell" where
  "group_sum vs =
     (case filter (\<lambda>v. v \<noteq> NaN) vs of
        [] \<Rightarrow> Inr (Num 0)
      | v # rest \<Rightarrow> add_all v rest)"

text \<open>The first failure of a list of results, or all their values.\<close>

fun collect :: "('e + 'a) list \<Rightarrow> 'e + 'a list" where
  "collect [] = Inr []"
| "collect (x # xs) =
     (case x of
        Inl e \<Rightarrow> Inl e
      | Inr v \<Rightarrow> (case collect xs of Inl e \<Rightarrow> Inl e | Inr vs \<Rightarrow> Inr (v # vs)))"

text \<open>Group keys come out sorted, numbers before texts.\<close>

fun cell_rank :: "cell \<Rightarrow> nat \<times> int \<times> string" where
  "cell_rank (Num n) = (0, n, [])"
| "cell_rank (Txt s) = (1, 0, s)"
| "cell_rank NaN = (2, 0, [])"

definition key_of :: "string list \<Rightarrow> row \<Rightarrow> cell list" where
  "key_of keys r = map (cell_at r) keys"

definition has_key :: "string list \<Rightarrow> row \<Rightarrow> bool" where
  "has_key keys r = (NaN \<notin> set (key_of keys r))"

definition group_keys :: "string list \<Rightarrow> row list \<Rightarrow> cell list list" where
  "group_keys keys rs = sort_key (map cell_rank) (remdups (map (key_of keys) rs))"

definition group_row :: "string list \<Rightarrow> string \<Rightarrow> row list \<Rightarrow> cell list \<Rightarrow> py_error + row" where
  "group_row keys vcol rs k =
     (case group_sum (map (\<lambda>r. cell_at r vcol) (filter (\<lambda>r. key_of keys r = k) rs)) of
        Inl e \<Rightarrow> Inl e
      | Inr s \<Rightarrow> Inr (zip keys k @ [(vcol, s)]))"

text \<open>
  \<^verbatim>\<open>df.groupby(keys)[vcol].sum().reset_index()\<close>: records with a missing key are dropped,
  every remaining key gets one record with the sum of its group.
\<close>

definition groupby_sum :: "table \<Rightarrow> string list \<Rightarrow> string \<Rightarrow> py_error + table" where
  "groupby_sum df keys vcol =
     (let missing = filter (\<lambda>c. c \<notin> set (columns df)) keys;
          kept = filter (has_key keys) (rows df) in
      if missing \<noteq> [] then Inl (KeyError missing)
      else if vcol \<notin> set (columns df) then Inl (KeyError [vcol])
      else case collect (map (group_row keys vcol kept) (group_keys keys kept)) of
             Inl e \<Rightarrow> Inl e
           | Inr rs \<Rightarrow> Inr \<lparr>columns = keys @ [vcol], rows = rs\<rparr>)"

section \<open>The views\<close>

text \<open>
  Every view catches whatever its body raises, reports it with \<^verbatim>\<open>st.error\<close> and returns
  an empty frame. What a run shows on the page is a list of events.
\<close>

datatype ui_event =
    St_error string py_error
  | St_warning string
  | Bar_chart string table
  | Line_chart string table
  | Metric string cell
  | Ratio string real
  | Gauge string real

subsection \<open>Sales by business unit\<close>

definition sales_by_unit_body :: "table \<Rightarrow> py_error + table" where
  "sales_by_unit_body df =
     (case getitem df ''Year'' of Inl e \<Rightarrow> Inl e | Inr years \<Rightarrow>
      case getitem df ''Account'' of Inl e \<Rightarrow> Inl e | Inr accounts \<Rightarrow>
      let sales_df = select_rows df (map2 (\<and>) (map (\<lambda>c. c = Num 2023) years)
                                          (map (\<lambda>c. c = Txt ''Sales'') accounts)) in
      case melt sales_df [''Scenario'', ''business_unit''] all_months ''month'' ''sales'' of
        Inl e \<Rightarrow> Inl e
      | Inr melted_df \<Rightarrow> groupby_sum melted_df [''Scenario'', ''business_unit''] ''sales'')"

definition process_sales_data_by_unit :: "table \<Rightarrow> table \<times> ui_event list" where
  "process_sales_data_by_unit df =
     (case sales_by_unit_body df of
        Inr agg_df \<Rightarrow> (agg_df, [])
      | Inl e \<Rightarrow> (DataFrame, [St_error ''Error processing sales data by unit'' e]))"

subsection \<open>Monthly sales of the Software unit\<close>

definition monthly_sales_body :: "table \<Rightarrow> py_error + table" where
  "monthly_sales_body df =
     (case getitem df ''Year'' of Inl e \<Rightarrow> Inl e | Inr years \<Rightarrow>
      case getitem df ''Account'' of Inl e \<Rightarrow> Inl e | Inr accounts \<Rightarrow>
      case getitem df ''business_unit'' of Inl e \<Rightarrow> Inl e | Inr units \<Rightarrow>
      let sales_df = select_rows df
            (map2 (\<and>) (map2 (\<and>) (map (\<lambda>c. c = Num 2023) years)
                                    (map (\<lambda>c. c = Txt ''Sales'') accounts))
                        (map (\<lambda>c. c = Txt ''Software'') units)) in
      melt sales_df [''Scenario''] all_months ''month'' ''sales'')"

definition process_monthly_sales_data :: "table \<Rightarrow> table \<times> ui_event list" where
  "process_monthly_sales_data df =
     (case monthly_sales_body df of
        Inr melted_df \<Rightarrow> (melted_df, [])
      | Inl e \<Rightarrow> (DataFrame, [St_error ''Error processing monthly sales data'' e]))"

subsection \<open>Yearly totals by account\<close>

text \<open>
  \<^verbatim>\<open>pd.to_numeric(series, errors='coerce').abs()\<close>, cell by cell. The result is a numeric
  series: a number or missing. How pandas reads a text as a number is a parameter \<open>parse\<close>
  of the view; \<open>parse s = None\<close> says that \<open>s\<close> cannot be parsed.
\<close>

fun to_numeric :: "(string \<Rightarrow> int option) \<Rightarrow> cell \<Rightarrow> int option" where
  "to_numeric parse (Num n) = Some n"
| "to_numeric parse (Txt s) = parse s"
| "to_numeric parse NaN = None"

definition series_abs :: "int option \<Rightarrow> int option" where
  "series_abs v = map_option (\<lambda>n. wrap64 \<bar>n\<bar>) v"

fun numeric_cell :: "int option \<Rightarrow> cell" where
  "numeric_cell (Some n) = Num n"
| "numeric_cell None = NaN"

definition coerce_abs :: "(string \<Rightarrow> int option) \<Rightarrow> cell \<Rightarrow> cell" where
  "coerce_abs parse c = numeric_cell (series_abs (to_numeric parse c))"

text \<open>\<^verbatim>\<open>df[col] = series\<close> on a column the frame has.\<close>

definition setitem :: "table \<Rightarrow> string \<Rightarrow> cell list \<Rightarrow> table" where
  "setitem df col vs = df\<lparr>rows := map2 (\<lambda>r v. AList.update col v r) (rows df) vs\<rparr>"

fun coerce_months :: "(string \<Rightarrow> int option) \<Rightarrow> table \<Rightarrow> string list \<Rightarrow> py_error + table" where
  "coerce_months parse df [] = Inr df"
| "coerce_months parse df (col # cols) =
     (case getitem df col of
        Inl e \<Rightarrow> Inl e
      | Inr series \<Rightarrow> coerce_months parse (setitem df col (map (coerce_abs parse) series)) cols)"

definition yearly_account_body :: "(string \<Rightarrow> int option) \<Rightarrow> table \<Rightarrow> py_error + table" where
  "yearly_account_body parse df =
     (case getitem df ''Scenario'' of Inl e \<Rightarrow> Inl e | Inr scenarios \<Rightarrow>
      case getitem df ''Account'' of Inl e \<Rightarrow> Inl e | Inr accounts \<Rightarrow>
      let actuals_df = select_rows df (map2 (\<and>) (map (\<lambda>c. c = Txt ''Actuals'') scenarios)
                                                (map (\<lambda>c. c \<noteq> Txt ''Sales'') accounts));
          month_cols = filter (\<lambda>col. col \<in> set (columns actuals_df)) all_months in
      case coerce_months parse actuals_df month_cols of Inl e \<Rightarrow> Inl e | Inr abs_df \<Rightarrow>
      case melt abs_df [''Account'', ''Year''] month_cols ''month'' ''sales'' of
        Inl e \<Rightarrow> Inl e
      | Inr melted_df \<Rightarrow> groupby_sum melted_df [''Account'', ''Year''] ''sales'')"

definition process_yearly_account_data ::
    "(string \<Rightarrow> int option) \<Rightarrow> table \<Rightarrow> table \<times> ui_event list" where
  "process_yearly_account_data parse df =
     (case yearly_account_body parse df of
        Inr agg_df \<Rightarrow> (agg_df, [])
      | Inl e \<Rightarrow> (DataFrame, [St_error ''Error processing yearly account data'' e]))"

section \<open>Metrics\<close>

text \<open>
  \<^verbatim>\<open>Series.sum()\<close> and \<^verbatim>\<open>DataFrame.sum()\<close> count a missing value as 0 and add the
  values of a column in order.
\<close>

definition nansum :: "cell list \<Rightarrow> py_error + cell" where
  "nansum vs =
     (case map (\<lambda>v. if v = NaN then Num 0 else v) vs of
        [] \<Rightarrow> Inr (Num 0)
      | v # rest \<Rightarrow> add_all v rest)"

definition frame_sum :: "table \<Rightarrow> py_error + cell list" where
  "frame_sum df = collect (map (\<lambda>c. nansum (map (\<lambda>r. cell_at r c) (rows df))) (columns df))"

fun py_abs :: "cell \<Rightarrow> py_error + cell" where
  "py_abs (Num n) = Inr (Num (wrap64 \<bar>n\<bar>))"
| "py_abs NaN = Inr NaN"
| "py_abs (Txt s) = Inl TypeError"

record metrics =
  accounts_receivable :: cell
  accounts_payable :: cell
  equity_ratio :: real
  debt_equity :: real
  current_ratio :: real

text \<open>\<^verbatim>\<open>df[keep][all_months].sum().sum()\<close>\<close>

definition months_total :: "table \<Rightarrow> bool list \<Rightarrow> py_error + cell" where
  "months_total df keep =
     (case getitems (select_rows df keep) all_months of Inl e \<Rightarrow> Inl e | Inr months_df \<Rightarrow>
      case frame_sum months_df of Inl e \<Rightarrow> Inl e | Inr totals \<Rightarrow> nansum totals)"

definition metrics_body :: "table \<Rightarrow> py_error + metrics" where
  "metrics_body df =
     (case getitem df ''Account'' of Inl e \<Rightarrow> Inl e | Inr accounts \<Rightarrow>
      case months_total df (map (\<lambda>c. c = Txt ''Sales'') accounts) of
        Inl e \<Rightarrow> Inl e | Inr receivable \<Rightarrow>
      case getitem df ''Account'' of Inl e \<Rightarrow> Inl e | Inr accounts' \<Rightarrow>
      case months_total df (map (\<lambda>c. c \<in> {Txt ''Marketing'', Txt ''Operations''}) accounts') of
        Inl e \<Rightarrow> Inl e | Inr payable \<Rightarrow>
      case py_abs receivable of Inl e \<Rightarrow> Inl e | Inr abs_receivable \<Rightarrow>
      case py_abs payable of Inl e \<Rightarrow> Inl e | Inr abs_payable \<Rightarrow>
      Inr \<lparr>accounts_receivable = abs_receivable, accounts_payable = abs_payable,
           equity_ratio = 75.38, debt_equity = 1.10, current_ratio = 1.86\<rparr>)"

definition zero_metrics :: metrics where
  "zero_metrics = \<lparr>accounts_receivable = Num 0, accounts_payable = Num 0,
                    equity_ratio = 0, debt_equity = 0, current_ratio = 0\<rparr>"

definition calculate_metrics :: "table \<Rightarrow> metrics \<times> ui_event list" where
  "calculate_metrics df =
     (case metrics_body df of
        Inr m \<Rightarrow> (m, [])
      | Inl e \<Rightarrow> (zero_metrics, [St_error ''Error calculating metrics'' e]))"

section \<open>The page\<close>

definition plot_top_right :: "table \<Rightarrow> ui_event list" where
  "plot_top_right df =
     (case process_sales_data_by_unit df of (sales_data, shown) \<Rightarrow>
        if is_empty sales_data
        then shown @ [St_warning ''No data available for sales by business unit'']
        else shown @ [Bar_chart ''Sales by Business Unit (2023)'' sales_data])"

definition plot_bottom_left :: "table \<Rightarrow> ui_event list" where
  "plot_bottom_left df =
     (case process_monthly_sales_data df of (sales_data, shown) \<Rightarrow>
        if is_empty sales_data
        then shown @ [St_warning ''No data available for monthly sales trend'']
        else shown @ [Line_chart ''Monthly Sales Trend - Software (2023)'' sales_data])"

definition plot_bottom_right :: "(string \<Rightarrow> int option) \<Rightarrow> table \<Rightarrow> ui_event list" where
  "plot_bottom_right parse df =
     (case process_yearly_account_data parse df of (sales_data, shown) \<Rightarrow>
        if is_empty sales_data
        then shown @ [St_warning ''No data available for yearly account sales'']
        else shown @ [Bar_chart ''Yearly Performance by Account (Actuals)'' sales_data])"

text \<open>
  The main layout, run on whatever frame was loaded: the metrics first, then the four
  columns of indicators and gauges, then the three charts.
\<close>

definition main_layout :: "(string \<Rightarrow> int option) \<Rightarrow> table \<Rightarrow> ui_event list" where
  "main_layout parse df =
     (case calculate_metrics df of (m, shown) \<Rightarrow>
        shown
        @ [Metric ''Total Accounts Receivable'' (accounts_receivable m),
           Gauge ''Current Ratio'' (current_ratio m),
           Metric ''Total Accounts Payable'' (accounts_payable m),
           Gauge ''In Stock'' 10,
           Ratio ''Equity Ratio'' (equity_ratio m),
           Gauge ''Out Stock'' 7,
           Ratio ''Debt Equity'' (debt_equity m),
           Gauge ''Delay'' 28]
        @ plot_top_right df
        @ plot_bottom_left df
        @ plot_bottom_right parse df)"

section \<open>Loading and caching\<close>

text \<open>\<^verbatim>\<open>sub in s\<close> and \<^verbatim>\<open>s.split(sep)\<close> on Python strings.\<close>

fun is_in :: "string \<Rightarrow> string \<Rightarrow> bool" where
  "is_in sub [] = (sub = [])"
| "is_in sub (c # cs) = (take (length sub) (c # cs) = sub \<or> is_in sub cs)"

function split_from :: "string \<Rightarrow> string \<Rightarrow> string \<Rightarrow> string list" where
  "split_from sep piece [] = [rev piece]"
| "split_from sep piece (c # cs) =
     (if sep \<noteq> [] \<and> take (length sep) (c # cs) = sep
      then rev piece # split_from sep [] (drop (length sep) (c # cs))
      else split_from sep (c # piece) cs)"
  by pat_completeness auto
termination
  by (relation "measure (\<lambda>(sep, piece, rest). length rest)") auto

definition py_split :: "string \<Rightarrow> string \<Rightarrow> string list" where
  "py_split s sep = split_from sep [] s"

text \<open>
  The Google client is outside the program: signing in with the credentials, and reading the
  records of the first sheet of a spreadsheet, each give a frame or the message of the
  exception they raised. What they give may differ from one call to the next, so every call
  of the loader is handed the service as it is at that moment.
\<close>

record service =
  sign_in :: "string \<Rightarrow> string + string"
  get_all_records :: "string \<Rightarrow> string \<Rightarrow> string + table"

type_synonym loaded = "table option \<times> string option"

definition load_google_sheets_data :: "service \<Rightarrow> string \<Rightarrow> string \<Rightarrow> loaded" where
  "load_google_sheets_data svc json_credentials sheets_url =
     (case sign_in svc json_credentials of
        Inl msg \<Rightarrow> (None, Some msg)
      | Inr client \<Rightarrow>
          if is_in ''/d/'' sheets_url then
            (case py_split sheets_url ''/d/'' of
               _ # after # _ \<Rightarrow>
                 (case py_split after ''/'' of
                    sheet_id # _ \<Rightarrow>
                      (case get_all_records svc client sheet_id of
                         Inl msg \<Rightarrow> (None, Some msg)
                       | Inr df \<Rightarrow> (Some df, None))
                  | [] \<Rightarrow> (None, Some ''list index out of range''))
             | _ \<Rightarrow> (None, Some ''list index out of range''))
          else (None, Some ''Invalid Google Sheets URL format''))"

text \<open>
  \<^verbatim>\<open>@st.cache_data(ttl=300)\<close>: the cache maps the arguments of a call to the value the
  function returned and the time it was stored. A call finds an entry younger than the
  time to live and returns its value, or runs the function and stores what it returned,
  whatever that is. The clock is the argument \<open>now\<close>, in seconds.
\<close>

record cache_entry =
  cached :: loaded
  stored_at :: nat

type_synonym cache = "string \<times> string \<Rightarrow> cache_entry option"

record call =
  returned :: loaded
  cache_after :: cache
  invoked :: bool

definition ttl :: nat where
  "ttl = 300"

definition cached_load :: "nat \<Rightarrow> service \<Rightarrow> cache \<Rightarrow> string \<Rightarrow> string \<Rightarrow> call" where
  "cached_load now svc c json_credentials sheets_url =
     (let key = (json_credentials, sheets_url);
          fresh = load_google_sheets_data svc json_credentials sheets_url;
          miss = \<lparr>returned = fresh,
                  cache_after = c(key \<mapsto> \<lparr>cached = fresh, stored_at = now\<rparr>),
                  invoked = True\<rparr> in
      case c key of
        None \<Rightarrow> miss
      | Some e \<Rightarrow>
          if now < stored_at e + ttl
          then \<lparr>returned = cached e, cache_after = c, invoked = False\<rparr>
          else miss)"

text \<open>\<^verbatim>\<open>st.cache_data.clear()\<close>, behind the refresh button.\<close>

definition cache_clear :: cache where
  "cache_clear = Map.empty"

section \<open>Notions used to state the properties\<close>

text \<open>
  The number a cell contributes to a sum, the range of int64, the total of a record over a
  list of value columns, and the records a grouped sum of a melted frame is expected to
  hold: one per group key, with the int64 sum of the amounts of the records of the group.
\<close>

definition in64 :: "int \<Rightarrow> bool" where
  "in64 n = (- (2 ^ 63) \<le> n \<and> n < 2 ^ 63)"

fun num_val :: "cell \<Rightarrow> int" where
  "num_val (Num n) = n"
| "num_val (Txt s) = 0"
| "num_val NaN = 0"


fun no_text :: "cell \<Rightarrow> bool" where
  "no_text (Num n) = True"
| "no_text (Txt s) = False"
| "no_text NaN = True"

definition row_total :: "string list \<Rightarrow> row \<Rightarrow> int" where
  "row_total vs r = sum_list (map (\<lambda>v. num_val (cell_at r v)) vs)"

definition summed_row :: "string list \<Rightarrow> (row \<Rightarrow> int) \<Rightarrow> string \<Rightarrow> row list \<Rightarrow> cell list \<Rightarrow> row" where
  "summed_row ids amount val rs k =
     zip ids k
     @ [(val, Num (wrap64 (sum_list (map amount (filter (\<lambda>r. key_of ids r = k) rs)))))]"

definition summed_rows :: "string list \<Rightarrow> (row \<Rightarrow> int) \<Rightarrow> string \<Rightarrow> row list \<Rightarrow> row list" where
  "summed_rows ids amount val rs =
     map (summed_row ids amount val (filter (has_key ids) rs))
         (group_keys ids (filter (has_key ids) rs))"

text \<open>The scenario of the template: one Budget record of Software sales for 2023.\<close>

definition scenario_table :: table where
  "scenario_table =
     \<lparr>columns = [''Scenario'', ''Year'', ''Account'', ''business_unit''] @ all_months,
      rows = [[(''Scenario'', Txt ''Budget''), (''Year'', Num 2023), (''Account'', Txt ''Sales''),
               (''business_unit'', Txt ''Software''), (''Jan'', Num 150000), (''Feb'', Num 155000),
               (''Mar'', Num 0), (''Apr'', Num 0), (''May'', Num 0), (''Jun'', Num 0),
               (''Jul'', Num 0), (''Aug'', Num 0), (''Sep'', Num 0), (''Oct'', Num 0),
               (''Nov'', Num 0), (''Dec'', Num 0)]]\<rparr>"

definition is_sales_2023 :: "row \<Rightarrow> bool" where
  "is_sales_2023 r = (cell_at r ''Year'' = Num 2023 \<and> cell_at r ''Account'' = Txt ''Sales'')"

definition is_actual_cost :: "row \<Rightarrow> bool" where
  "is_actual_cost r = (cell_at r ''Scenario'' = Txt ''Actuals'' \<and> cell_at r ''Account'' \<noteq> Txt ''Sales'')"

definition present_months :: "table \<Rightarrow> string list" where
  "present_months df = filter (\<lambda>col. col \<in> set (columns df)) all_months"

definition coerce_row :: "(string \<Rightarrow> int option) \<Rightarrow> string list \<Rightarrow> row \<Rightarrow> row" where
  "coerce_row parse cols r =
     fold (\<lambda>col r. AList.update col (coerce_abs parse (cell_at r col)) r) cols r"

definition abs_val :: "(string \<Rightarrow> int option) \<Rightarrow> cell \<Rightarrow> int" where
  "abs_val parse c = (case to_numeric parse c of Some n \<Rightarrow> wrap64 \<bar>n\<bar> | None \<Rightarrow> 0)"

definition abs_total :: "(string \<Rightarrow> int option) \<Rightarrow> string list \<Rightarrow> row \<Rightarrow> int" where
  "abs_total parse vs r = sum_list (map (\<lambda>v. abs_val parse (cell_at r v)) vs)"

text \<open>
  The absolute value of the number a cell holds, taken in the integers, and what these add
  up to over the records the yearly view keeps and the month columns present; the same for
  all month cells of a table. Below \<open>2 ^ 63\<close> no int64 operation of a view overflows.
\<close>

definition magnitude :: "(string \<Rightarrow> int option) \<Rightarrow> cell \<Rightarrow> int" where
  "magnitude parse c = (case to_numeric parse c of Some n \<Rightarrow> \<bar>n\<bar> | None \<Rightarrow> 0)"

definition magnitude_total :: "(string \<Rightarrow> int option) \<Rightarrow> string list \<Rightarrow> row \<Rightarrow> int" where
  "magnitude_total parse vs r = sum_list (map (\<lambda>v. magnitude parse (cell_at r v)) vs)"

definition yearly_volume :: "(string \<Rightarrow> int option) \<Rightarrow> table \<Rightarrow> int" where
  "yearly_volume parse df =
     sum_list (map (magnitude_total parse (present_months df)) (filter is_actual_cost (rows df)))"




text \<open>
  The input contract of the pipeline: the four dimension columns and the twelve month
  columns are there, no column is called \<open>sales\<close>, and no record lacks a dimension value.
\<close>

definition key_columns :: "string list" where
  "key_columns = [''Scenario'', ''Year'', ''Account'', ''business_unit'']"



text \<open>A reader of unsigned decimal texts, for the examples.\<close>

definition parse_digits :: "string \<Rightarrow> int option" where
  "parse_digits s =
     (if s \<noteq> [] \<and> list_all (\<lambda>c. CHR ''0'' \<le> c \<and> c \<le> CHR ''9'') s
      then Some (foldl (\<lambda>n c. 10 * n + (int (of_char c) - 48)) 0 s)
      else None)"

text \<open>The table of the CSV template that the sidebar offers for download.\<close>

definition template_row :: "string \<Rightarrow> string \<Rightarrow> string \<Rightarrow> int list \<Rightarrow> row" where
  "template_row scenario account unit months =
     [(''Scenario'', Txt scenario), (''Year'', Num 2023), (''Account'', Txt account),
      (''business_unit'', Txt unit)] @ zip all_months (map Num months)"

definition template_table :: table where
  "template_table =
     \<lparr>columns = [''Scenario'', ''Year'', ''Account'', ''business_unit''] @ all_months,
      rows =
        [template_row ''Budget'' ''Sales'' ''Software''
           [150000, 155000, 160000, 165000, 170000, 175000, 180000, 185000, 190000, 195000, 200000, 205000],
         template_row ''Budget'' ''Marketing'' ''Software''
           [50000, 52000, 54000, 56000, 58000, 60000, 62000, 64000, 66000, 68000, 70000, 72000],
         template_row ''Budget'' ''Operations'' ''Hardware''
           [75000, 77000, 79000, 81000, 83000, 85000, 87000, 89000, 91000, 93000, 95000, 97000],
         template_row ''Forecast'' ''Sales'' ''Software''
           [160000, 165000, 170000, 175000, 180000, 185000, 190000, 195000, 200000, 205000, 210000, 215000],
         template_row ''Forecast'' ''Marketing'' ''Hardware''
           [55000, 57000, 59000, 61000, 63000, 65000, 67000, 69000, 71000, 73000, 75000, 77000],
         template_row ''Forecast'' ''Operations'' ''Software''
           [80000, 82000, 84000, 86000, 88000, 90000, 92000, 94000, 96000, 98000, 100000, 102000],
         template_row ''Actuals'' ''Sales'' ''Software''
           [145000, 150000, 155000, 160000, 165000, 170000, 175000, 180000, 185000, 190000, 195000, 200000],
         template_row ''Actuals'' ''Marketing'' ''Hardware''
           [48000, 50000, 52000, 54000, 56000, 58000, 60000, 62000, 64000, 66000, 68000, 70000]]\<rparr>"

text \<open>
  A sheet with only two month columns: a cost of the actuals booked as a negative amount,
  with a text in February, and a budget record of sales.
\<close>

definition partial_table :: table where
  "partial_table =
     \<lparr>columns = [''Scenario'', ''Year'', ''Account'', ''business_unit'', ''Jan'', ''Feb''],
      rows = [[(''Scenario'', Txt ''Actuals''), (''Year'', Num 2023), (''Account'', Txt ''Marketing''),
               (''business_unit'', Txt ''Hardware''), (''Jan'', Num (- 48000)), (''Feb'', Txt ''n/a'')],
              [(''Scenario'', Txt ''Budget''), (''Year'', Num 2023), (''Account'', Txt ''Sales''),
               (''business_unit'', Txt ''Software''), (''Jan'', Num 150000), (''Feb'', Num 155000)]]\<rparr>"

text \<open>The scenario table with the January cell left blank in the sheet.\<close>

definition blank_cell_table :: table where
  "blank_cell_table =
     \<lparr>columns = [''Scenario'', ''Year'', ''Account'', ''business_unit''] @ all_months,
      rows = [[(''Scenario'', Txt ''Budget''), (''Year'', Num 2023), (''Account'', Txt ''Sales''),
               (''business_unit'', Txt ''Software''), (''Jan'', Txt ''''), (''Feb'', Num 155000),
               (''Mar'', Num 0), (''Apr'', Num 0), (''May'', Num 0), (''Jun'', Num 0),
               (''Jul'', Num 0), (''Aug'', Num 0), (''Sep'', Num 0), (''Oct'', Num 0),
               (''Nov'', Num 0), (''Dec'', Num 0)]]\<rparr>"


text \<open>A cost of the actuals whose January cell is the least int64.\<close>

definition int64_min_table :: table where
  "int64_min_table =
     \<lparr>columns = [''Scenario'', ''Year'', ''Account'', ''business_unit''] @ all_months,
      rows = [[(''Scenario'', Txt ''Actuals''), (''Year'', Num 2023), (''Account'', Txt ''Marketing''),
               (''business_unit'', Txt ''Hardware''), (''Jan'', Num (- 9223372036854775808)),
               (''Feb'', Num 0), (''Mar'', Num 0), (''Apr'', Num 0), (''May'', Num 0),
               (''Jun'', Num 0), (''Jul'', Num 0), (''Aug'', Num 0), (''Sep'', Num 0),
               (''Oct'', Num 0), (''Nov'', Num 0), (''Dec'', Num 0)]]\<rparr>"

text \<open>The scenario table as a sheet that has no Account column.\<close>

definition no_account_table :: table where
  "no_account_table =
     \<lparr>columns = [''Scenario'', ''Year'', ''business_unit''] @ all_months,
      rows = [[(''Scenario'', Txt ''Budget''), (''Year'', Num 2023),
               (''business_unit'', Txt ''Software''), (''Jan'', Num 150000), (''Feb'', Num 155000),
               (''Mar'', Num 0), (''Apr'', Num 0), (''May'', Num 0), (''Jun'', Num 0),
               (''Jul'', Num 0), (''Aug'', Num 0), (''Sep'', Num 0), (''Oct'', Num 0),
               (''Nov'', Num 0), (''Dec'', Num 0)]]\<rparr>"

text \<open>
  A table misses a required column when a dimension column or every month column is absent.
\<close>

definition missing_required :: "table \<Rightarrow> bool" where
  "missing_required df =
     (list_ex (\<lambda>c. c \<notin> set (columns df)) key_columns
      \<or> list_all (\<lambda>m. m \<notin> set (columns df)) all_months)"

text \<open>A sheet with the four dimension columns and no month column.\<close>

definition no_months_table :: table where
  "no_months_table =
     \<lparr>columns = [''Scenario'', ''Year'', ''Account'', ''business_unit''],
      rows = [[(''Scenario'', Txt ''Actuals''), (''Year'', Num 2023), (''Account'', Txt ''Marketing''),
               (''business_unit'', Txt ''Hardware'')]]\<rparr>"

text \<open>
  Example services: one that serves a given table, one whose read of the sheet fails; the
  arguments of the calls; a cache holding a five minutes old successful load.
\<close>

definition service_up :: "table \<Rightarrow> service" where
  "service_up df = \<lparr>sign_in = (\<lambda>json. Inr ''client''), get_all_records = (\<lambda>client sheet. Inr df)\<rparr>"

definition service_down :: service where
  "service_down = \<lparr>sign_in = (\<lambda>json. Inr ''client''),
                    get_all_records = (\<lambda>client sheet. Inl ''APIError: service unavailable'')\<rparr>"

definition some_credentials :: string where
  "some_credentials = ''{}''"

definition some_url :: string where
  "some_url = ''https://docs.google.com/spreadsheets/d/abc123/edit''"

definition stale_cache :: cache where
  "stale_cache = cache_clear((some_credentials, some_url) \<mapsto>
                   \<lparr>cached = (Some template_table, None), stored_at = 0\<rparr>)"

section \<open>Lemmas\<close>

subsection \<open>Selecting, summing and grouping\<close>

lemma keep_rows: "map fst (filter snd (zip xs (map p xs))) = filter p xs"
  by (induction xs) auto

lemma select_rows_pred:
  "select_rows df (map p (rows df)) = df\<lparr>rows := filter p (rows df)\<rparr>"
  by (simp add: select_rows_def keep_rows)

lemma wrap64_mod: "wrap64 n = (n + 2 ^ 63) mod 2 ^ 64 - 2 ^ 63"
  by (simp add: wrap64_def)

lemma in64_wrap64: "in64 (wrap64 n)"
  by (simp add: in64_def wrap64_mod)

lemma wrap64_in64: "in64 n \<Longrightarrow> wrap64 n = n"
  by (simp add: in64_def wrap64_def)

lemma wrap64_add_left: "wrap64 (wrap64 a + b) = wrap64 (a + b)"
proof -
  have "(wrap64 a + b + 2 ^ 63) mod 2 ^ 64 = ((a + 2 ^ 63) mod 2 ^ 64 + b) mod 2 ^ 64"
    by (simp add: wrap64_mod algebra_simps)
  also have "\<dots> = (a + 2 ^ 63 + b) mod 2 ^ 64"
    by (rule mod_add_left_eq)
  finally show ?thesis
    by (simp add: wrap64_mod algebra_simps)
qed

lemma in64_zero: "in64 0"
  by (simp add: in64_def)

lemma add_all_numbers:
  "list_all no_text vs \<Longrightarrow> list_all (\<lambda>v. v \<noteq> NaN) vs \<Longrightarrow> in64 a \<Longrightarrow>
   add_all (Num a) vs = Inr (Num (wrap64 (a + sum_list (map num_val vs))))"
proof (induction vs arbitrary: a)
  case Nil
  then show ?case by (simp add: wrap64_in64)
next
  case (Cons v vs)
  then obtain n where v: "v = Num n" by (cases v) auto
  have "add_all (Num (wrap64 (a + n))) vs
        = Inr (Num (wrap64 (wrap64 (a + n) + sum_list (map num_val vs))))"
    using Cons.prems by (intro Cons.IH) (simp_all add: in64_wrap64)
  then show ?case by (simp add: v wrap64_add_left add.assoc)
qed

lemma sum_list_skip_missing:
  "sum_list (map num_val (filter (\<lambda>v. v \<noteq> NaN) vs)) = sum_list (map num_val vs)"
  by (induction vs) auto

lemma group_sum_numbers:
  assumes "list_all no_text vs" "list_all (\<lambda>v. in64 (num_val v)) vs"
  shows "group_sum vs = Inr (Num (wrap64 (sum_list (map num_val vs))))"
proof (cases "filter (\<lambda>v. v \<noteq> NaN) vs")
  case Nil
  then have "sum_list (map num_val vs) = 0"
    using sum_list_skip_missing [of vs] by simp
  with Nil show ?thesis by (simp add: group_sum_def wrap64_in64 in64_zero)
next
  case (Cons v rest)
  have all: "list_all no_text (v # rest)" "list_all (\<lambda>v. v \<noteq> NaN) (v # rest)"
      "list_all (\<lambda>v. in64 (num_val v)) (v # rest)"
    using assms Cons [symmetric] by (auto simp: list_all_iff)
  then obtain n where v: "v = Num n" by (cases v) auto
  have "add_all (Num n) rest = Inr (Num (wrap64 (n + sum_list (map num_val rest))))"
    using all v by (intro add_all_numbers) auto
  moreover have "sum_list (map num_val vs) = n + sum_list (map num_val rest)"
    using sum_list_skip_missing [of vs] Cons v by simp
  ultimately show ?thesis using Cons v by (simp add: group_sum_def)
qed

lemma collect_map_cong:
  "(\<And>x. x \<in> set xs \<Longrightarrow> g x = Inr (f x)) \<Longrightarrow> collect (map g xs) = Inr (map f xs)"
  by (induction xs) auto

lemma sum_list_swap:
  "sum_list (map (\<lambda>v. sum_list (map (\<lambda>r. f r v) rs)) vs)
   = sum_list (map (\<lambda>r. sum_list (map (\<lambda>v. (f r v :: int)) vs)) rs)"
  by (induction rs) (simp_all add: sum_list_addf)



lemma cell_rank_inj: "cell_rank a = cell_rank b \<Longrightarrow> a = b"
  by (cases a; cases b) auto

lemma map_cell_rank_inj: "inj (map cell_rank)"
  by (rule List.inj_mapI) (auto simp: inj_on_def dest: cell_rank_inj)

lemma sort_key_unique:
  assumes "inj f" "distinct xs" "distinct ys" "set xs = set ys"
  shows "sort_key f xs = sort_key f ys"
proof -
  have "map f (sort_key f xs) = map f (sort_key f ys)"
  proof (rule sorted_distinct_set_unique)
    show "sorted (map f (sort_key f xs))" "sorted (map f (sort_key f ys))" by simp_all
    show "distinct (map f (sort_key f xs))" "distinct (map f (sort_key f ys))"
      using assms by (simp_all add: distinct_map inj_on_subset [OF assms(1)])
    show "set (map f (sort_key f xs)) = set (map f (sort_key f ys))"
      using assms by simp
  qed
  then show ?thesis using assms(1) by (simp add: inj_map_eq_map)
qed

lemma group_keys_cong:
  "set (map (key_of keys) rs) = set (map (key_of keys) rs') \<Longrightarrow> group_keys keys rs = group_keys keys rs'"
  unfolding group_keys_def
  by (rule sort_key_unique [OF map_cell_rank_inj]) simp_all



subsection \<open>Melted frames and their grouped sums\<close>

lemma cell_at_long_row_id:
  "k \<in> set ids \<Longrightarrow> cell_at (long_row ids var val v r) k = cell_at r k"
  by (simp add: cell_at_def long_row_def map_of_map_restrict)

lemma cell_at_long_row_value:
  "val \<notin> set ids \<Longrightarrow> val \<noteq> var \<Longrightarrow> cell_at (long_row ids var val v r) val = cell_at r v"
  by (simp add: cell_at_def long_row_def map_of_map_restrict map_add_def)

lemma key_of_long_row: "key_of ids (long_row ids var val v r) = key_of ids r"
  by (simp add: key_of_def cell_at_long_row_id)

lemma has_key_long_row: "has_key ids (long_row ids var val v r) = has_key ids r"
  by (simp add: has_key_def key_of_long_row)

lemma filter_long_rows:
  assumes "\<And>v r. p (long_row ids var val v r) = q r"
  shows "filter p (concat (map (\<lambda>v. map (long_row ids var val v) rs) vs))
         = concat (map (\<lambda>v. map (long_row ids var val v) (filter q rs)) vs)"
  by (induction vs) (simp_all add: filter_map o_def assms)

lemma values_long_rows:
  assumes "val \<notin> set ids" "val \<noteq> var"
  shows "map (\<lambda>x. cell_at x val) (concat (map (\<lambda>v. map (long_row ids var val v) rs) vs))
         = concat (map (\<lambda>v. map (\<lambda>r. cell_at r v) rs) vs)"
  by (induction vs) (simp_all add: o_def cell_at_long_row_value assms)

lemma sum_values_by_row:
  "sum_list (map num_val (concat (map (\<lambda>v. map (\<lambda>r. cell_at r v) rs) vs)))
   = sum_list (map (\<lambda>r. sum_list (map (\<lambda>v. num_val (cell_at r v)) vs)) rs)"
proof -
  have "sum_list (map num_val (concat (map (\<lambda>v. map (\<lambda>r. cell_at r v) rs) vs)))
        = sum_list (map (\<lambda>v. sum_list (map (\<lambda>r. num_val (cell_at r v)) rs)) vs)"
    by (induction vs) (simp_all add: o_def)
  also have "\<dots> = sum_list (map (\<lambda>r. sum_list (map (\<lambda>v. num_val (cell_at r v)) vs)) rs)"
    by (rule sum_list_swap)
  finally show ?thesis .
qed

lemma group_keys_long_rows:
  "group_keys ids (concat (map (\<lambda>v. map (long_row ids var val v) rs) vs))
   = (if vs = [] then [] else group_keys ids rs)"
proof (cases "vs = []")
  case True
  then show ?thesis by (simp add: group_keys_def)
next
  case False
  then obtain v where v: "v \<in> set vs" by (cases vs) auto
  have "key_of ids ` set (concat (map (\<lambda>v. map (long_row ids var val v) rs) vs))
        = key_of ids ` set rs"
  proof (intro set_eqI iffI)
    fix k assume "k \<in> key_of ids ` set (concat (map (\<lambda>v. map (long_row ids var val v) rs) vs))"
    then show "k \<in> key_of ids ` set rs" by (auto simp: key_of_long_row)
  next
    fix k assume "k \<in> key_of ids ` set rs"
    then obtain r where r: "r \<in> set rs" "k = key_of ids r" by auto
    then have "long_row ids var val v r \<in> set (concat (map (\<lambda>v. map (long_row ids var val v) rs) vs))"
      using v by auto
    then show "k \<in> key_of ids ` set (concat (map (\<lambda>v. map (long_row ids var val v) rs) vs))"
      using r(2) key_of_long_row [of ids var val v r] by (metis imageI)
  qed
  then have "group_keys ids (concat (map (\<lambda>v. map (long_row ids var val v) rs) vs)) = group_keys ids rs"
    by (intro group_keys_cong) simp
  then show ?thesis using False by simp
qed

lemma melt_groupby:
  assumes ids: "set ids \<subseteq> set (columns fr)" and vs: "set vs \<subseteq> set (columns fr)"
    and val: "val \<notin> set (columns fr)" "val \<noteq> var"
    and nums: "\<And>r v. r \<in> set (rows fr) \<Longrightarrow> v \<in> set vs \<Longrightarrow> no_text (cell_at r v)"
    and range: "\<And>r v. r \<in> set (rows fr) \<Longrightarrow> v \<in> set vs \<Longrightarrow> in64 (num_val (cell_at r v))"
  shows "\<exists>m. melt fr ids vs var val = Inr m \<and>
           groupby_sum m ids val
           = Inr \<lparr>columns = ids @ [val],
                  rows = (if vs = [] then [] else summed_rows ids (row_total vs) val (rows fr))\<rparr>"
proof -
  let ?rows = "\<lambda>rs. concat (map (\<lambda>v. map (long_row ids var val v) rs) vs)"
  let ?m = "\<lparr>columns = ids @ [var, val], rows = ?rows (rows fr)\<rparr>"
  let ?kept = "filter (has_key ids) (rows fr)"
  have val_ids: "val \<notin> set ids" using ids val by auto
  have "filter (\<lambda>c. c \<notin> set (columns fr)) (ids @ vs) = []"
    using ids vs by (auto simp: filter_empty_conv)
  then have melt: "melt fr ids vs var val = Inr ?m"
    using val by (simp add: melt_def)
  have kept: "filter (has_key ids) (?rows (rows fr)) = ?rows ?kept"
    by (rule filter_long_rows) (rule has_key_long_row)
  have row: "group_row ids val (?rows ?kept) k = Inr (summed_row ids (row_total vs) val ?kept k)" for k
  proof -
    let ?g = "filter (\<lambda>r. key_of ids r = k) ?kept"
    have "filter (\<lambda>r. key_of ids r = k) (?rows ?kept) = ?rows ?g"
      by (rule filter_long_rows) (simp add: key_of_long_row)
    then have vals: "map (\<lambda>r. cell_at r val) (filter (\<lambda>r. key_of ids r = k) (?rows ?kept))
        = concat (map (\<lambda>v. map (\<lambda>r. cell_at r v) ?g) vs)"
      by (simp add: values_long_rows val_ids val)
    have "list_all no_text (concat (map (\<lambda>v. map (\<lambda>r. cell_at r v) ?g) vs))"
      using nums by (auto simp: list_all_iff)
    moreover have "list_all (\<lambda>v. in64 (num_val v))
                     (concat (map (\<lambda>v. map (\<lambda>r. cell_at r v) ?g) vs))"
      using range by (auto simp: list_all_iff)
    moreover have "(\<lambda>r. sum_list (map (\<lambda>v. num_val (cell_at r v)) vs)) = row_total vs"
      by (simp add: fun_eq_iff row_total_def)
    ultimately have "group_sum (concat (map (\<lambda>v. map (\<lambda>r. cell_at r v) ?g) vs))
        = Inr (Num (wrap64 (sum_list (map (row_total vs) ?g))))"
      by (simp only: group_sum_numbers sum_values_by_row)
    then show ?thesis unfolding group_row_def vals summed_row_def by simp
  qed
  have keys: "group_keys ids (?rows ?kept) = (if vs = [] then [] else group_keys ids ?kept)"
    by (rule group_keys_long_rows)
  have "collect (map (group_row ids val (?rows ?kept)) (group_keys ids (?rows ?kept)))
        = Inr (map (summed_row ids (row_total vs) val ?kept) (group_keys ids (?rows ?kept)))"
    by (rule collect_map_cong) (rule row)
  then have coll: "collect (map (group_row ids val (?rows ?kept)) (group_keys ids (?rows ?kept)))
        = Inr (if vs = [] then [] else summed_rows ids (row_total vs) val (rows fr))"
    unfolding keys summed_rows_def by simp
  have miss: "filter (\<lambda>c. c \<notin> set (columns ?m)) ids = []"
    by (auto simp: filter_empty_conv)
  have "groupby_sum ?m ids val
        = Inr \<lparr>columns = ids @ [val],
               rows = (if vs = [] then [] else summed_rows ids (row_total vs) val (rows fr))\<rparr>"
    unfolding groupby_sum_def Let_def miss
    by (simp only: table.simps kept coll) simp
  with melt show ?thesis by blast
qed

subsection \<open>The sales views\<close>

lemma select_rows_two:
  "select_rows df (map2 (\<and>) (map (p \<circ> f) (rows df)) (map (q \<circ> g) (rows df)))
   = df\<lparr>rows := filter (\<lambda>r. p (f r) \<and> q (g r)) (rows df)\<rparr>"
proof -
  have "map2 (\<and>) (map (p \<circ> f) xs) (map (q \<circ> g) xs) = map (\<lambda>r. p (f r) \<and> q (g r)) xs" for xs
    by (induction xs) auto
  then show ?thesis by (simp only: select_rows_pred)
qed

lemma select_rows_three:
  "select_rows df (map2 (\<and>) (map2 (\<and>) (map (p \<circ> f) (rows df)) (map (q \<circ> g) (rows df)))
                              (map (u \<circ> h) (rows df)))
   = df\<lparr>rows := filter (\<lambda>r. (p (f r) \<and> q (g r)) \<and> u (h r)) (rows df)\<rparr>"
proof -
  have "map2 (\<and>) (map2 (\<and>) (map (p \<circ> f) xs) (map (q \<circ> g) xs)) (map (u \<circ> h) xs)
        = map (\<lambda>r. (p (f r) \<and> q (g r)) \<and> u (h r)) xs" for xs
    by (induction xs) auto
  then show ?thesis by (simp only: select_rows_pred)
qed

lemma melt_value_name_taken:
  "val \<in> set (columns fr) \<Longrightarrow> melt fr ids vs var val = Inl ValueError"
  by (simp add: melt_def)

lemma melt_missing:
  "val \<notin> set (columns fr) \<Longrightarrow> c \<in> set (ids @ vs) \<Longrightarrow> c \<notin> set (columns fr) \<Longrightarrow>
   melt fr ids vs var val = Inl (KeyError (filter (\<lambda>c. c \<notin> set (columns fr)) (ids @ vs)))"
  unfolding melt_def Let_def by (auto simp: filter_empty_conv)

lemma sales_by_unit_body_eq:
  "sales_by_unit_body df =
     (if ''Year'' \<notin> set (columns df) then Inl (KeyError [''Year''])
      else if ''Account'' \<notin> set (columns df) then Inl (KeyError [''Account''])
      else case melt (df\<lparr>rows := filter is_sales_2023 (rows df)\<rparr>)
                  [''Scenario'', ''business_unit''] all_months ''month'' ''sales'' of
             Inl e \<Rightarrow> Inl e
           | Inr melted_df \<Rightarrow> groupby_sum melted_df [''Scenario'', ''business_unit''] ''sales'')"
proof -
  have "(\<lambda>r. cell_at r ''Year'' = Num 2023 \<and> cell_at r ''Account'' = Txt ''Sales'') = is_sales_2023"
    by (simp add: fun_eq_iff is_sales_2023_def)
  then show ?thesis
    unfolding sales_by_unit_body_def getitem_def Let_def
    by (simp add: select_rows_two)
qed

lemma monthly_sales_body_eq:
  "monthly_sales_body df =
     (if ''Year'' \<notin> set (columns df) then Inl (KeyError [''Year''])
      else if ''Account'' \<notin> set (columns df) then Inl (KeyError [''Account''])
      else if ''business_unit'' \<notin> set (columns df) then Inl (KeyError [''business_unit''])
      else melt (df\<lparr>rows := filter (\<lambda>r. is_sales_2023 r \<and> cell_at r ''business_unit'' = Txt ''Software'')
                                     (rows df)\<rparr>)
                [''Scenario''] all_months ''month'' ''sales'')"
proof -
  have "(\<lambda>r. (cell_at r ''Year'' = Num 2023 \<and> cell_at r ''Account'' = Txt ''Sales'')
              \<and> cell_at r ''business_unit'' = Txt ''Software'')
        = (\<lambda>r. is_sales_2023 r \<and> cell_at r ''business_unit'' = Txt ''Software'')"
    by (simp add: fun_eq_iff is_sales_2023_def)
  then show ?thesis
    unfolding monthly_sales_body_def getitem_def Let_def
    by (simp add: select_rows_three)
qed


subsection \<open>The yearly view\<close>

lemma cell_at_update:
  "cell_at (AList.update k v r) c = (if c = k then v else cell_at r c)"
  by (simp add: cell_at_def update_conv')

lemma cell_at_coerce_row:
  "distinct cols \<Longrightarrow>
   cell_at (coerce_row parse cols r) c
   = (if c \<in> set cols then coerce_abs parse (cell_at r c) else cell_at r c)"
proof (induction cols arbitrary: r)
  case Nil
  then show ?case by (simp add: coerce_row_def)
next
  case (Cons col cols)
  have step: "coerce_row parse (col # cols) r
        = coerce_row parse cols (AList.update col (coerce_abs parse (cell_at r col)) r)"
    by (simp add: coerce_row_def)
  from Cons.prems have d: "distinct cols" "col \<notin> set cols" by simp_all
  show ?case
    unfolding step Cons.IH [OF d(1)]
    using d(2) by (auto simp: cell_at_update)
qed

lemma setitem_map:
  "setitem df col (map (h \<circ> (\<lambda>r. cell_at r col)) (rows df))
   = df\<lparr>rows := map (\<lambda>r. AList.update col (h (cell_at r col)) r) (rows df)\<rparr>"
proof -
  have "map2 (\<lambda>r v. AList.update col v r) xs (map (h \<circ> (\<lambda>r. cell_at r col)) xs)
        = map (\<lambda>r. AList.update col (h (cell_at r col)) r) xs" for xs
    by (induction xs) auto
  then show ?thesis by (simp only: setitem_def)
qed

lemma coerce_months_rows:
  "set cols \<subseteq> set (columns df) \<Longrightarrow>
   coerce_months parse df cols = Inr (df\<lparr>rows := map (coerce_row parse cols) (rows df)\<rparr>)"
proof (induction cols arbitrary: df)
  case Nil
  then show ?case by (simp add: coerce_row_def)
next
  case (Cons col cols)
  let ?df = "df\<lparr>rows := map (\<lambda>r. AList.update col (coerce_abs parse (cell_at r col)) r) (rows df)\<rparr>"
  have get: "getitem df col = Inr (map (\<lambda>r. cell_at r col) (rows df))"
    using Cons.prems by (simp add: getitem_def)
  have step: "coerce_months parse df (col # cols) = coerce_months parse ?df cols"
    by (simp add: get setitem_map)
  have "set cols \<subseteq> set (columns ?df)" using Cons.prems by simp
  then have ih: "coerce_months parse ?df cols
        = Inr (?df\<lparr>rows := map (coerce_row parse cols) (rows ?df)\<rparr>)"
    by (rule Cons.IH)
  have same: "?df\<lparr>rows := map (coerce_row parse cols) (rows ?df)\<rparr>
        = df\<lparr>rows := map (coerce_row parse (col # cols)) (rows df)\<rparr>"
    by (simp add: coerce_row_def)
  show ?case unfolding step ih same ..
qed

lemma num_val_coerce_abs: "num_val (coerce_abs parse c) = abs_val parse c"
  by (cases "to_numeric parse c") (simp_all add: coerce_abs_def series_abs_def abs_val_def)

lemma no_text_coerce_abs: "no_text (coerce_abs parse c)"
  by (cases "to_numeric parse c") (simp_all add: coerce_abs_def series_abs_def)

lemma in64_coerce_abs: "in64 (num_val (coerce_abs parse c))"
  by (cases "to_numeric parse c")
    (simp_all add: coerce_abs_def series_abs_def in64_wrap64 in64_zero)

lemma row_total_coerce_row:
  "distinct vs \<Longrightarrow> row_total vs (coerce_row parse vs r) = abs_total parse vs r"
  by (simp add: row_total_def abs_total_def cell_at_coerce_row num_val_coerce_abs cong: map_cong)

lemma key_of_coerce_row:
  "distinct cols \<Longrightarrow> set ids \<inter> set cols = {} \<Longrightarrow>
   key_of ids (coerce_row parse cols r) = key_of ids r"
  by (auto simp: key_of_def cell_at_coerce_row)

lemma summed_rows_map:
  assumes "\<And>r. key_of ids (g r) = key_of ids r"
  shows "summed_rows ids amount val (map g rs) = summed_rows ids (amount \<circ> g) val rs"
proof -
  have "has_key ids (g r) = has_key ids r" for r
    by (simp add: has_key_def assms)
  then have kept: "filter (has_key ids) (map g rs) = map g (filter (has_key ids) rs)"
    by (simp add: filter_map o_def)
  have keys: "group_keys ids (map g xs) = group_keys ids xs" for xs
    by (rule group_keys_cong) (simp add: assms)
  have row: "summed_row ids amount val (map g xs) k = summed_row ids (amount \<circ> g) val xs k" for xs k
    by (simp add: summed_row_def filter_map o_def assms)
  show ?thesis
    unfolding summed_rows_def kept keys by (simp add: row)
qed

lemma present_months_subset: "set (present_months df) \<subseteq> set (columns df)"
  by (auto simp: present_months_def)

lemma present_months_months: "set (present_months df) \<subseteq> set all_months"
  by (auto simp: present_months_def)

lemma distinct_all_months: "distinct all_months"
  by (simp add: all_months_def)

lemma present_months_distinct: "distinct (present_months df)"
  unfolding present_months_def by (rule distinct_filter) (rule distinct_all_months)

lemma account_year_not_months: "set [''Account'', ''Year''] \<inter> set all_months = {}"
  by (simp add: all_months_def)

lemma yearly_account_body_eq:
  "yearly_account_body parse df =
     (if ''Scenario'' \<notin> set (columns df) then Inl (KeyError [''Scenario''])
      else if ''Account'' \<notin> set (columns df) then Inl (KeyError [''Account''])
      else case coerce_months parse (df\<lparr>rows := filter is_actual_cost (rows df)\<rparr>)
                  (present_months df) of
             Inl e \<Rightarrow> Inl e
           | Inr abs_df \<Rightarrow>
               (case melt abs_df [''Account'', ''Year''] (present_months df) ''month'' ''sales'' of
                  Inl e \<Rightarrow> Inl e
                | Inr melted_df \<Rightarrow> groupby_sum melted_df [''Account'', ''Year''] ''sales''))"
proof -
  have "(\<lambda>r. cell_at r ''Scenario'' = Txt ''Actuals'' \<and> cell_at r ''Account'' \<noteq> Txt ''Sales'')
        = is_actual_cost"
    by (simp add: fun_eq_iff is_actual_cost_def)
  then show ?thesis
    unfolding yearly_account_body_def getitem_def Let_def
    by (simp add: select_rows_two present_months_def cong: sum.case_cong)
qed

lemma yearly_account_body_sums:
  assumes cols: "''Scenario'' \<in> set (columns df)" "''Account'' \<in> set (columns df)"
      "''Year'' \<in> set (columns df)"
    and val: "''sales'' \<notin> set (columns df)"
  shows "yearly_account_body parse df =
           Inr \<lparr>columns = [''Account'', ''Year'', ''sales''],
                rows = (if present_months df = [] then []
                        else summed_rows [''Account'', ''Year'']
                               (abs_total parse (present_months df)) ''sales''
                               (filter is_actual_cost (rows df)))\<rparr>"
proof -
  let ?pm = "present_months df"
  let ?survivors = "filter is_actual_cost (rows df)"
  let ?fr = "df\<lparr>rows := map (coerce_row parse ?pm) ?survivors\<rparr>"
  have "set ?pm \<subseteq> set (columns (df\<lparr>rows := ?survivors\<rparr>))"
    using present_months_subset [of df] by simp
  then have coerce: "coerce_months parse (df\<lparr>rows := ?survivors\<rparr>) ?pm = Inr ?fr"
    by (simp add: coerce_months_rows)
  have disjoint: "set [''Account'', ''Year''] \<inter> set ?pm = {}"
    using account_year_not_months present_months_months [of df] by blast
  have "\<exists>m. melt ?fr [''Account'', ''Year''] ?pm ''month'' ''sales'' = Inr m \<and>
          groupby_sum m [''Account'', ''Year''] ''sales''
          = Inr \<lparr>columns = [''Account'', ''Year''] @ [''sales''],
                 rows = (if ?pm = [] then []
                         else summed_rows [''Account'', ''Year''] (row_total ?pm) ''sales''
                                (rows ?fr))\<rparr>"
  proof (rule melt_groupby)
    show "set [''Account'', ''Year''] \<subseteq> set (columns ?fr)" using cols by simp
    show "set ?pm \<subseteq> set (columns ?fr)" using present_months_subset [of df] by simp
    show "''sales'' \<notin> set (columns ?fr)" using val by simp
    show "''sales'' \<noteq> ''month''" by simp
    show "no_text (cell_at r v)" if "r \<in> set (rows ?fr)" "v \<in> set ?pm" for r v
      using that by (auto simp: cell_at_coerce_row present_months_distinct no_text_coerce_abs)
    show "in64 (num_val (cell_at r v))" if "r \<in> set (rows ?fr)" "v \<in> set ?pm" for r v
      using that by (auto simp: cell_at_coerce_row present_months_distinct in64_coerce_abs)
  qed
  moreover have "summed_rows [''Account'', ''Year''] (row_total ?pm) ''sales'' (rows ?fr)
      = summed_rows [''Account'', ''Year''] (abs_total parse ?pm) ''sales'' ?survivors"
  proof -
    have "summed_rows [''Account'', ''Year''] (row_total ?pm) ''sales''
            (map (coerce_row parse ?pm) ?survivors)
        = summed_rows [''Account'', ''Year''] (row_total ?pm \<circ> coerce_row parse ?pm) ''sales''
            ?survivors"
      by (rule summed_rows_map) (rule key_of_coerce_row [OF present_months_distinct disjoint])
    moreover have "row_total ?pm \<circ> coerce_row parse ?pm = abs_total parse ?pm"
      by (simp add: fun_eq_iff row_total_coerce_row present_months_distinct)
    ultimately show ?thesis by simp
  qed
  ultimately show ?thesis
    using cols by (auto simp: yearly_account_body_eq coerce)
qed

lemma yearly_account_body_fails:
  assumes "''Scenario'' \<notin> set (columns df) \<or> ''Account'' \<notin> set (columns df)
           \<or> ''Year'' \<notin> set (columns df) \<or> ''sales'' \<in> set (columns df)"
  shows "\<exists>e. yearly_account_body parse df = Inl e"
proof (cases "''Scenario'' \<in> set (columns df) \<and> ''Account'' \<in> set (columns df)")
  case False
  then show ?thesis by (auto simp: yearly_account_body_eq)
next
  case True
  let ?pm = "present_months df"
  let ?fr = "df\<lparr>rows := map (coerce_row parse ?pm) (filter is_actual_cost (rows df))\<rparr>"
  have "set ?pm \<subseteq> set (columns (df\<lparr>rows := filter is_actual_cost (rows df)\<rparr>))"
    using present_months_subset [of df] by simp
  then have coerce: "coerce_months parse (df\<lparr>rows := filter is_actual_cost (rows df)\<rparr>) ?pm
      = Inr ?fr"
    by (simp add: coerce_months_rows)
  have "\<exists>e. melt ?fr [''Account'', ''Year''] ?pm ''month'' ''sales'' = Inl e"
  proof (cases "''sales'' \<in> set (columns df)")
    case True
    then show ?thesis by (simp add: melt_value_name_taken)
  next
    case False
    with assms True have "''Year'' \<notin> set (columns ?fr)" by auto
    moreover have "''sales'' \<notin> set (columns ?fr)" using False by simp
    ultimately show ?thesis
      using melt_missing [of "''sales''" ?fr "''Year''" "[''Account'', ''Year'']" ?pm "''month''"]
      by auto
  qed
  then show ?thesis
    using True by (auto simp: yearly_account_body_eq coerce)
qed

subsection \<open>Totals of the summed records\<close>

lemma cell_at_summed_row:
  "val \<notin> set ids \<Longrightarrow>
   cell_at (summed_row ids amount val rs k) val
   = Num (wrap64 (sum_list (map amount (filter (\<lambda>r. key_of ids r = k) rs))))"
proof -
  assume "val \<notin> set ids"
  then have "val \<notin> fst ` set (zip ids k)"
    by (auto dest: set_zip_leftD)
  then have "map_of (zip ids k) val = None"
    by (simp add: map_of_eq_None_iff)
  then show ?thesis
    by (simp add: cell_at_def summed_row_def map_add_def)
qed

lemma sum_list_filter_le:
  "(\<And>x. x \<in> set xs \<Longrightarrow> 0 \<le> f x) \<Longrightarrow>
   sum_list (map f (filter p xs)) \<le> sum_list (map (f :: 'a \<Rightarrow> int) xs)"
proof (induction xs)
  case Nil
  then show ?case by simp
next
  case (Cons x xs)
  have "sum_list (map f (filter p xs)) \<le> sum_list (map f xs)"
    by (rule Cons.IH) (simp add: Cons.prems)
  moreover have "0 \<le> f x" by (simp add: Cons.prems)
  ultimately show ?case by simp
qed

lemma member_le_sum_list_int:
  assumes "x \<in> set xs" "\<And>y. y \<in> set xs \<Longrightarrow> 0 \<le> f y"
  shows "f x \<le> sum_list (map (f :: 'a \<Rightarrow> int) xs)"
proof -
  have "sum_list (map f (filter (\<lambda>y. y = x) xs)) \<le> sum_list (map f xs)"
    by (rule sum_list_filter_le) (rule assms(2))
  moreover have "f x \<le> sum_list (map f (filter (\<lambda>y. y = x) xs))"
    using assms(1)
  proof (induction xs)
    case Nil
    then show ?case by simp
  next
    case (Cons y ys)
    show ?case
    proof (cases "y = x")
      case True
      have "0 \<le> sum_list (map f (filter (\<lambda>y. y = x) ys))"
        by (rule sum_list_nonneg) (use assms in auto)
      with True show ?thesis by simp
    next
      case False
      with Cons show ?thesis by simp
    qed
  qed
  ultimately show ?thesis by simp
qed

lemma group_sum_exact:
  assumes bound: "\<And>r. r \<in> set rs \<Longrightarrow> \<bar>amount r\<bar> \<le> b r"
    and fits: "sum_list (map b rs) < 2 ^ 63"
  shows "wrap64 (sum_list (map amount (filter p rs))) = sum_list (map amount (filter p rs))"
proof (rule wrap64_in64)
  have pos: "0 \<le> b r" if "r \<in> set rs" for r
    using bound [OF that] by simp
  have "\<bar>sum_list (map amount (filter p rs))\<bar> \<le> sum_list (map (\<lambda>r. \<bar>amount r\<bar>) (filter p rs))"
    using sum_list_abs [of "map amount (filter p rs)"] by (simp add: o_def)
  also have "\<dots> \<le> sum_list (map b (filter p rs))"
    by (rule sum_list_mono) (simp add: bound)
  also have "\<dots> \<le> sum_list (map b rs)"
    by (rule sum_list_filter_le) (rule pos)
  finally have "\<bar>sum_list (map amount (filter p rs))\<bar> < 2 ^ 63"
    using fits by simp
  then show "in64 (sum_list (map amount (filter p rs)))"
    by (simp add: in64_def abs_less_iff)
qed


lemma summed_rows_nonneg:
  assumes "val \<notin> set ids"
    and pos: "\<And>r. r \<in> set rs \<Longrightarrow> 0 \<le> amount r"
    and fits: "sum_list (map amount rs) < 2 ^ 63"
    and x: "x \<in> set (summed_rows ids amount val rs)"
  shows "\<exists>n\<ge>0. cell_at x val = Num n"
proof -
  let ?kept = "filter (has_key ids) rs"
  from x obtain k where "x = summed_row ids amount val ?kept k"
    by (auto simp: summed_rows_def)
  then have "cell_at x val
      = Num (wrap64 (sum_list (map amount (filter (\<lambda>r. key_of ids r = k) ?kept))))"
    by (simp add: cell_at_summed_row assms(1))
  moreover have "wrap64 (sum_list (map amount (filter (\<lambda>r. key_of ids r = k) ?kept)))
      = sum_list (map amount (filter (\<lambda>r. key_of ids r = k) ?kept))"
    using group_sum_exact [of rs amount amount "\<lambda>r. has_key ids r \<and> key_of ids r = k"] pos fits
    by simp
  moreover have "0 \<le> sum_list (map amount (filter (\<lambda>r. key_of ids r = k) ?kept))"
    by (rule sum_list_nonneg) (auto simp: pos)
  ultimately show ?thesis by auto
qed

lemma summed_rows_cong:
  assumes "\<And>r. r \<in> set rs \<Longrightarrow> amount r = amount' r"
  shows "summed_rows ids amount val rs = summed_rows ids amount' val rs"
proof -
  have "sum_list (map amount (filter p (filter q rs)))
        = sum_list (map amount' (filter p (filter q rs)))" for p q
    by (intro arg_cong [where f = sum_list] map_cong refl) (simp add: assms)
  then show ?thesis
    by (simp add: summed_rows_def summed_row_def)
qed

lemma magnitude_nonneg: "0 \<le> magnitude parse c"
  by (simp add: magnitude_def split: option.splits)

lemma magnitude_total_nonneg: "0 \<le> magnitude_total parse vs r"
  unfolding magnitude_total_def
  by (rule sum_list_nonneg) (auto simp: magnitude_nonneg)

lemma abs_val_wrap: "abs_val parse c = wrap64 (magnitude parse c)"
  by (simp add: abs_val_def magnitude_def wrap64_in64 in64_zero split: option.splits)

lemma abs_total_magnitude:
  assumes "magnitude_total parse vs r < 2 ^ 63"
  shows "abs_total parse vs r = magnitude_total parse vs r"
proof -
  have "abs_val parse (cell_at r v) = magnitude parse (cell_at r v)" if "v \<in> set vs" for v
  proof -
    have "magnitude parse (cell_at r v)
          \<le> sum_list (map (\<lambda>v. magnitude parse (cell_at r v)) vs)"
      by (rule member_le_sum_list_int [OF that]) (rule magnitude_nonneg)
    with assms have "magnitude parse (cell_at r v) < 2 ^ 63"
      by (simp add: magnitude_total_def)
    then have "in64 (magnitude parse (cell_at r v))"
      using magnitude_nonneg [of parse "cell_at r v"] by (simp add: in64_def)
    then show ?thesis by (simp add: abs_val_wrap wrap64_in64)
  qed
  then show ?thesis
    by (simp add: abs_total_def magnitude_total_def cong: map_cong)
qed

lemma yearly_volume_exact:
  assumes "yearly_volume parse df < 2 ^ 63" "r \<in> set (filter is_actual_cost (rows df))"
  shows "abs_total parse (present_months df) r = magnitude_total parse (present_months df) r"
proof (rule abs_total_magnitude)
  have "magnitude_total parse (present_months df) r \<le> yearly_volume parse df"
    unfolding yearly_volume_def
    by (rule member_le_sum_list_int [OF assms(2)]) (rule magnitude_total_nonneg)
  with assms(1) show "magnitude_total parse (present_months df) r < 2 ^ 63" by simp
qed

subsection \<open>Tables that meet the input contract\<close>










subsection \<open>Absent columns\<close>

lemma melt_fails:
  assumes "c \<in> set (ids @ vs)" "c \<notin> set (columns fr)"
  shows "\<exists>e. melt fr ids vs var val = Inl e"
proof (cases "val \<in> set (columns fr)")
  case True
  then show ?thesis by (simp add: melt_value_name_taken)
next
  case False
  from melt_missing [OF False assms] show ?thesis by blast
qed



subsection \<open>The metrics\<close>

lemma columns_select_rows: "columns (select_rows df keep) = columns df"
  by (simp add: select_rows_def)

lemma months_total_missing:
  assumes "m \<in> set all_months" "m \<notin> set (columns df)"
  shows "months_total df keep = Inl (KeyError (filter (\<lambda>c. c \<notin> set (columns df)) all_months))"
proof -
  have "filter (\<lambda>c. c \<notin> set (columns df)) all_months \<noteq> []"
    using assms by (auto simp: filter_empty_conv)
  then show ?thesis
    by (simp add: months_total_def getitems_def columns_select_rows)
qed

lemma metrics_body_missing:
  assumes "c \<in> set (''Account'' # all_months)" "c \<notin> set (columns df)"
  shows "\<exists>ks. metrics_body df = Inl (KeyError ks) \<and> ks \<noteq> [] \<and> set ks \<inter> set (columns df) = {}"
proof (cases "''Account'' \<in> set (columns df)")
  case False
  then have "metrics_body df = Inl (KeyError [''Account''])"
    by (simp add: metrics_body_def getitem_def)
  with False show ?thesis by simp
next
  case True
  with assms have m: "c \<in> set all_months" by auto
  let ?ks = "filter (\<lambda>c. c \<notin> set (columns df)) all_months"
  have "metrics_body df = Inl (KeyError ?ks)"
    using True by (simp add: metrics_body_def getitem_def months_total_missing [OF m assms(2)])
  moreover have "?ks \<noteq> []" using m assms(2) by (auto simp: filter_empty_conv)
  moreover have "set ?ks \<inter> set (columns df) = {}" by auto
  ultimately show ?thesis by blast
qed

lemma metrics_body_ratios:
  assumes "metrics_body df = Inr m"
  shows "equity_ratio m = 75.38 \<and> debt_equity m = 1.10 \<and> current_ratio m = 1.86"
  using assms unfolding metrics_body_def
  by (auto split: sum.splits)

subsection \<open>The cache\<close>

lemma cached_load_miss:
  assumes "invoked (cached_load now svc c creds url)"
  shows "cached_load now svc c creds url
         = \<lparr>returned = load_google_sheets_data svc creds url,
            cache_after = c((creds, url) \<mapsto>
              \<lparr>cached = load_google_sheets_data svc creds url, stored_at = now\<rparr>),
            invoked = True\<rparr>"
  using assms unfolding cached_load_def Let_def
  by (auto split: option.splits if_splits)

lemma cached_load_entry:
  assumes "c (creds, url) = Some e"
  shows "cached_load now svc c creds url
         = (if now < stored_at e + ttl
            then \<lparr>returned = cached e, cache_after = c, invoked = False\<rparr>
            else \<lparr>returned = load_google_sheets_data svc creds url,
                  cache_after = c((creds, url) \<mapsto>
                    \<lparr>cached = load_google_sheets_data svc creds url, stored_at = now\<rparr>),
                  invoked = True\<rparr>)"
  using assms unfolding cached_load_def Let_def by simp

lemma cached_load_again:
  assumes "invoked (cached_load t1 svc1 c creds url)"
  shows "(t2 < t1 + ttl \<longrightarrow>
            cached_load t2 svc2 (cache_after (cached_load t1 svc1 c creds url)) creds url
            = \<lparr>returned = returned (cached_load t1 svc1 c creds url),
               cache_after = cache_after (cached_load t1 svc1 c creds url),
               invoked = False\<rparr>)
       \<and> (t1 + ttl \<le> t2 \<longrightarrow>
            invoked (cached_load t2 svc2 (cache_after (cached_load t1 svc1 c creds url)) creds url)
            \<and> returned (cached_load t2 svc2 (cache_after (cached_load t1 svc1 c creds url)) creds url)
              = load_google_sheets_data svc2 creds url)"
proof -
  let ?e = "\<lparr>cached = load_google_sheets_data svc1 creds url, stored_at = t1\<rparr>"
  have first: "cached_load t1 svc1 c creds url
      = \<lparr>returned = load_google_sheets_data svc1 creds url,
         cache_after = c((creds, url) \<mapsto> ?e), invoked = True\<rparr>"
    by (rule cached_load_miss [OF assms])
  have "(c((creds, url) \<mapsto> ?e)) (creds, url) = Some ?e" by simp
  then have "cached_load t2 svc2 (c((creds, url) \<mapsto> ?e)) creds url
      = (if t2 < stored_at ?e + ttl
         then \<lparr>returned = cached ?e, cache_after = c((creds, url) \<mapsto> ?e), invoked = False\<rparr>
         else \<lparr>returned = load_google_sheets_data svc2 creds url,
               cache_after = (c((creds, url) \<mapsto> ?e))((creds, url) \<mapsto>
                 \<lparr>cached = load_google_sheets_data svc2 creds url, stored_at = t2\<rparr>),
               invoked = True\<rparr>)"
    by (rule cached_load_entry)
  then show ?thesis
    unfolding first by simp
qed

lemma load_service_up:
  "load_google_sheets_data (service_up df) some_credentials some_url = (Some df, None)"
proof -
  have "is_in ''/d/'' some_url" by code_simp
  moreover have "py_split some_url ''/d/''
      = [''https://docs.google.com/spreadsheets'', ''abc123/edit'']" by code_simp
  moreover have "py_split ''abc123/edit'' ''/'' = [''abc123'', ''edit'']" by code_simp
  ultimately show ?thesis by (simp add: load_google_sheets_data_def service_up_def)
qed

lemma load_service_down:
  "load_google_sheets_data service_down some_credentials some_url
   = (None, Some ''APIError: service unavailable'')"
proof -
  have "is_in ''/d/'' some_url" by code_simp
  moreover have "py_split some_url ''/d/''
      = [''https://docs.google.com/spreadsheets'', ''abc123/edit'']" by code_simp
  moreover have "py_split ''abc123/edit'' ''/'' = [''abc123'', ''edit'']" by code_simp
  ultimately show ?thesis by (simp add: load_google_sheets_data_def service_down_def)
qed

subsection \<open>Tables that miss a required column\<close>

lemma melt_fails_select:
  assumes "c \<in> set (ids @ vs)" "c \<notin> set (columns df)"
  shows "\<exists>e. melt (df\<lparr>rows := rs\<rparr>) ids vs var val = Inl e"
  using melt_fails [of c ids vs "df\<lparr>rows := rs\<rparr>" var val] assms by simp

lemma sales_by_unit_body_missing:
  assumes "c \<in> set (key_columns @ all_months)" "c \<notin> set (columns df)"
  shows "\<exists>e. sales_by_unit_body df = Inl e"
proof (cases "''Year'' \<in> set (columns df) \<and> ''Account'' \<in> set (columns df)")
  case False
  then show ?thesis by (auto simp: sales_by_unit_body_eq)
next
  case True
  with assms have "c \<in> set ([''Scenario'', ''business_unit''] @ all_months)"
    by (auto simp: key_columns_def)
  from melt_fails_select [OF this assms(2)]
  obtain e where "melt (df\<lparr>rows := filter is_sales_2023 (rows df)\<rparr>)
                   [''Scenario'', ''business_unit''] all_months ''month'' ''sales'' = Inl e"
    by blast
  with True show ?thesis by (simp add: sales_by_unit_body_eq)
qed

lemma monthly_sales_body_missing:
  assumes "c \<in> set (key_columns @ all_months)" "c \<notin> set (columns df)"
  shows "\<exists>e. monthly_sales_body df = Inl e"
proof (cases "''Year'' \<in> set (columns df) \<and> ''Account'' \<in> set (columns df)
              \<and> ''business_unit'' \<in> set (columns df)")
  case False
  then show ?thesis by (auto simp: monthly_sales_body_eq)
next
  case True
  with assms have "c \<in> set ([''Scenario''] @ all_months)"
    by (auto simp: key_columns_def)
  from melt_fails_select [OF this assms(2)]
  obtain e where "melt (df\<lparr>rows := filter (\<lambda>r. is_sales_2023 r
                          \<and> cell_at r ''business_unit'' = Txt ''Software'') (rows df)\<rparr>)
                   [''Scenario''] all_months ''month'' ''sales'' = Inl e"
    by blast
  with True show ?thesis by (simp add: monthly_sales_body_eq)
qed

lemma missing_required_column:
  assumes "missing_required df"
  shows "\<exists>c. c \<in> set (key_columns @ all_months) \<and> c \<notin> set (columns df)"
proof -
  from assms consider "list_ex (\<lambda>c. c \<notin> set (columns df)) key_columns"
    | "list_all (\<lambda>m. m \<notin> set (columns df)) all_months"
    by (auto simp: missing_required_def)
  then show ?thesis
  proof cases
    case 1
    then show ?thesis by (auto simp: list_ex_iff)
  next
    case 2
    then have "''Jan'' \<notin> set (columns df)" by (simp add: list_all_iff all_months_def)
    moreover have "''Jan'' \<in> set (key_columns @ all_months)" by (simp add: all_months_def)
    ultimately show ?thesis by blast
  qed
qed

section \<open>Properties of the pipeline\<close>

text \<open>
  C1. On the table whose only record is the Budget record of 2023 Software sales with
  150000 in January, 155000 in February and 0 in the ten other months, the sales-by-unit
  view returns exactly one record: Budget, Software, 305000; nothing is reported.
\<close>

theorem sales_by_unit_scenario:
  "process_sales_data_by_unit scenario_table =
     (\<lparr>columns = [''Scenario'', ''business_unit'', ''sales''],
       rows = [[(''Scenario'', Txt ''Budget''), (''business_unit'', Txt ''Software''),
                (''sales'', Num 305000)]]\<rparr>, [])"
  by code_simp




text \<open>
  C3. With the January cell of the scenario record left blank, so that it reaches the frame
  as an empty text, the sales-by-unit view sums a text and numbers: the sum raises a
  TypeError, the view reports it and returns the empty frame instead of the 155000 of the
  other months.
\<close>

theorem sales_by_unit_blank_cell:
  "process_sales_data_by_unit blank_cell_table =
     (DataFrame, [St_error ''Error processing sales data by unit'' TypeError])"
  by code_simp

text \<open>
  C7, as the code has it. When the absolute values of the month cells of the records the
  yearly-by-account view keeps add up to less than \<open>2 ^ 63\<close>, so that no int64 absolute
  value or sum overflows, every record the view returns carries a number in \<open>sales\<close>, and
  that number is not negative, however texts are read as numbers.
\<close>

theorem yearly_sales_nonneg:
  assumes "yearly_volume parse df < 2 ^ 63"
  shows "\<forall>r\<in>set (rows (fst (process_yearly_account_data parse df))).
           \<exists>n\<ge>0. cell_at r ''sales'' = Num n"
proof (cases "''Scenario'' \<in> set (columns df) \<and> ''Account'' \<in> set (columns df)
              \<and> ''Year'' \<in> set (columns df) \<and> ''sales'' \<notin> set (columns df)")
  case False
  then obtain e where "yearly_account_body parse df = Inl e"
    using yearly_account_body_fails [of df parse] by blast
  then show ?thesis
    by (simp add: process_yearly_account_data_def DataFrame_def)
next
  case True
  let ?pm = "present_months df"
  let ?survivors = "filter is_actual_cost (rows df)"
  from True have "yearly_account_body parse df =
      Inr \<lparr>columns = [''Account'', ''Year'', ''sales''],
           rows = (if ?pm = [] then []
                   else summed_rows [''Account'', ''Year''] (abs_total parse ?pm) ''sales''
                          ?survivors)\<rparr>"
    by (intro yearly_account_body_sums) simp_all
  moreover have "summed_rows [''Account'', ''Year''] (abs_total parse ?pm) ''sales'' ?survivors
      = summed_rows [''Account'', ''Year''] (magnitude_total parse ?pm) ''sales'' ?survivors"
    by (rule summed_rows_cong) (rule yearly_volume_exact [OF assms])
  ultimately have body: "yearly_account_body parse df =
      Inr \<lparr>columns = [''Account'', ''Year'', ''sales''],
           rows = (if ?pm = [] then []
                   else summed_rows [''Account'', ''Year''] (magnitude_total parse ?pm) ''sales''
                          ?survivors)\<rparr>"
    by simp
  show ?thesis
  proof
    fix r
    assume "r \<in> set (rows (fst (process_yearly_account_data parse df)))"
    then have "r \<in> set (summed_rows [''Account'', ''Year''] (magnitude_total parse ?pm) ''sales''
                          ?survivors)"
      by (simp add: process_yearly_account_data_def body split: if_splits)
    moreover have "sum_list (map (magnitude_total parse ?pm) ?survivors) < 2 ^ 63"
      using assms by (simp add: yearly_volume_def)
    ultimately show "\<exists>n\<ge>0. cell_at r ''sales'' = Num n"
      by (intro summed_rows_nonneg [where ids = "[''Account'', ''Year'']"
            and amount = "magnitude_total parse ?pm" and rs = ?survivors])
        (simp_all add: magnitude_total_nonneg)
  qed
qed

theorem yearly_sales_nonneg_partial:
  "yearly_volume parse_digits partial_table < 2 ^ 63
   \<and> [(''Account'', Txt ''Marketing''), (''Year'', Num 2023), (''sales'', Num 48000)]
       \<in> set (rows (fst (process_yearly_account_data parse_digits partial_table)))
   \<and> (\<exists>n\<ge>0. cell_at [(''Account'', Txt ''Marketing''), (''Year'', Num 2023), (''sales'', Num 48000)]
                  ''sales'' = Num n)"
proof -
  have v: "yearly_volume parse_digits partial_table < 2 ^ 63" by code_simp
  have mem: "[(''Account'', Txt ''Marketing''), (''Year'', Num 2023), (''sales'', Num 48000)]
     \<in> set (rows (fst (process_yearly_account_data parse_digits partial_table)))"
    by code_simp
  from v mem bspec [OF yearly_sales_nonneg [OF v] mem] show ?thesis by simp
qed

text \<open>
  C7, as claimed, fails: with the least int64 in the January cell of a cost of the actuals,
  the absolute value of the int64 column leaves the cell as it is, and the view returns
  that negative number as the sales of Marketing in 2023.
\<close>

theorem yearly_sales_int64_min:
  "process_yearly_account_data parse_digits int64_min_table
     = (\<lparr>columns = [''Account'', ''Year'', ''sales''],
         rows = [[(''Account'', Txt ''Marketing''), (''Year'', Num 2023),
                  (''sales'', Num (- 9223372036854775808))]]\<rparr>, [])
   \<and> (- 9223372036854775808 :: int) < 0"
proof -
  have "process_yearly_account_data parse_digits int64_min_table
     = (\<lparr>columns = [''Account'', ''Year'', ''sales''],
         rows = [[(''Account'', Txt ''Marketing''), (''Year'', Num 2023),
                  (''sales'', Num (- 9223372036854775808))]]\<rparr>, [])"
    by code_simp
  then show ?thesis by simp
qed



text \<open>
  C6. On a table that lacks the Account column or one of the twelve month columns,
  \<open>calculate_metrics\<close> returns the bundle with all five fields zero and reports one
  error, a KeyError that names absent columns only; being a total function of the table, it
  lets no exception through.
\<close>

theorem metrics_degrade:
  assumes "c \<in> set (''Account'' # all_months)" "c \<notin> set (columns df)"
  shows "\<exists>ks. calculate_metrics df
               = (\<lparr>accounts_receivable = Num 0, accounts_payable = Num 0,
                   equity_ratio = 0, debt_equity = 0, current_ratio = 0\<rparr>,
                  [St_error ''Error calculating metrics'' (KeyError ks)])
             \<and> ks \<noteq> [] \<and> set ks \<inter> set (columns df) = {}"
proof -
  from metrics_body_missing [OF assms]
  obtain ks where "metrics_body df = Inl (KeyError ks)" "ks \<noteq> []" "set ks \<inter> set (columns df) = {}"
    by blast
  then show ?thesis
    by (auto simp: calculate_metrics_def zero_metrics_def)
qed

theorem metrics_degrade_no_account:
  "''Account'' \<in> set (''Account'' # all_months) \<and> ''Account'' \<notin> set (columns no_account_table)
   \<and> calculate_metrics no_account_table
       = (\<lparr>accounts_receivable = Num 0, accounts_payable = Num 0,
           equity_ratio = 0, debt_equity = 0, current_ratio = 0\<rparr>,
          [St_error ''Error calculating metrics'' (KeyError [''Account''])])"
proof -
  have a: "''Account'' \<in> set (''Account'' # all_months)" by simp
  have b: "''Account'' \<notin> set (columns no_account_table)" by code_simp
  from metrics_degrade [OF a b] obtain ks where
    eq: "calculate_metrics no_account_table
               = (\<lparr>accounts_receivable = Num 0, accounts_payable = Num 0,
                   equity_ratio = 0, debt_equity = 0, current_ratio = 0\<rparr>,
                  [St_error ''Error calculating metrics'' (KeyError ks)])"
    by blast
  have "snd (calculate_metrics no_account_table)
        = [St_error ''Error calculating metrics'' (KeyError [''Account''])]"
    by code_simp
  with eq have "ks = [''Account'']" by simp
  with eq a b show ?thesis by simp
qed

text \<open>
  C9. Whenever \<open>calculate_metrics\<close> reports no error on two tables, the equity ratio, the
  debt-equity ratio and the current ratio of the two bundles are the same: they are the
  constants 75.38, 1.10 and 1.86, whatever the tables hold.
\<close>

theorem ratios_constant:
  assumes "snd (calculate_metrics df1) = []" "snd (calculate_metrics df2) = []"
  shows "equity_ratio (fst (calculate_metrics df1)) = equity_ratio (fst (calculate_metrics df2))
       \<and> debt_equity (fst (calculate_metrics df1)) = debt_equity (fst (calculate_metrics df2))
       \<and> current_ratio (fst (calculate_metrics df1)) = current_ratio (fst (calculate_metrics df2))
       \<and> equity_ratio (fst (calculate_metrics df1)) = 75.38
       \<and> debt_equity (fst (calculate_metrics df1)) = 1.10
       \<and> current_ratio (fst (calculate_metrics df1)) = 1.86"
proof -
  have ok: "equity_ratio (fst (calculate_metrics df)) = 75.38
          \<and> debt_equity (fst (calculate_metrics df)) = 1.10
          \<and> current_ratio (fst (calculate_metrics df)) = 1.86"
    if "snd (calculate_metrics df) = []" for df
  proof (cases "metrics_body df")
    case (Inl e)
    with that show ?thesis by (simp add: calculate_metrics_def)
  next
    case (Inr m)
    with metrics_body_ratios [OF Inr] show ?thesis by (simp add: calculate_metrics_def)
  qed
  from ok [OF assms(1)] ok [OF assms(2)] show ?thesis by simp
qed

theorem ratios_constant_template_scenario:
  "snd (calculate_metrics template_table) = [] \<and> snd (calculate_metrics scenario_table) = []
   \<and> accounts_receivable (fst (calculate_metrics template_table)) = Num 6450000
   \<and> accounts_receivable (fst (calculate_metrics scenario_table)) = Num 305000
   \<and> equity_ratio (fst (calculate_metrics template_table))
       = equity_ratio (fst (calculate_metrics scenario_table))
   \<and> debt_equity (fst (calculate_metrics template_table))
       = debt_equity (fst (calculate_metrics scenario_table))
   \<and> current_ratio (fst (calculate_metrics template_table))
       = current_ratio (fst (calculate_metrics scenario_table))"
proof -
  have a: "snd (calculate_metrics template_table) = []" by code_simp
  have b: "snd (calculate_metrics scenario_table) = []" by code_simp
  have c: "accounts_receivable (fst (calculate_metrics template_table)) = Num 6450000" by code_simp
  have d: "accounts_receivable (fst (calculate_metrics scenario_table)) = Num 305000" by code_simp
  from ratios_constant [OF a b] a b c d show ?thesis by simp
qed

text \<open>
  C5. After a call that ran the loader at time \<open>t1\<close>, a call with the same credentials and
  URL before \<open>t1 + ttl\<close> returns the very value of the first call and leaves the cache as
  it is without running the loader, whatever the service would deliver by then; a call at
  \<open>t1 + ttl\<close> or later runs the loader again and returns what the service delivers then.
\<close>

theorem cache_ttl:
  assumes "invoked (cached_load t1 svc1 c creds url)"
  shows "(t2 < t1 + ttl \<longrightarrow>
            cached_load t2 svc2 (cache_after (cached_load t1 svc1 c creds url)) creds url
            = \<lparr>returned = returned (cached_load t1 svc1 c creds url),
               cache_after = cache_after (cached_load t1 svc1 c creds url),
               invoked = False\<rparr>)
       \<and> (t1 + ttl \<le> t2 \<longrightarrow>
            invoked (cached_load t2 svc2 (cache_after (cached_load t1 svc1 c creds url)) creds url)
            \<and> returned (cached_load t2 svc2 (cache_after (cached_load t1 svc1 c creds url)) creds url)
              = load_google_sheets_data svc2 creds url)"
  using assms by (rule cached_load_again)

theorem cache_ttl_example:
  "invoked (cached_load 0 (service_up template_table) cache_clear some_credentials some_url)
   \<and> returned (cached_load 299 (service_up scenario_table)
        (cache_after (cached_load 0 (service_up template_table) cache_clear some_credentials some_url))
        some_credentials some_url) = (Some template_table, None)
   \<and> returned (cached_load 300 (service_up scenario_table)
        (cache_after (cached_load 0 (service_up template_table) cache_clear some_credentials some_url))
        some_credentials some_url) = (Some scenario_table, None)"
proof -
  have i: "invoked (cached_load 0 (service_up template_table) cache_clear some_credentials some_url)"
    by (simp add: cached_load_def cache_clear_def Let_def)
  have r: "returned (cached_load 0 (service_up template_table) cache_clear some_credentials some_url)
      = (Some template_table, None)"
    by (simp add: cached_load_def cache_clear_def Let_def load_service_up)
  from cache_ttl [OF i, of 299 "service_up scenario_table"]
       cache_ttl [OF i, of 300 "service_up scenario_table"] i r
  show ?thesis by (simp add: ttl_def load_service_up)
qed

text \<open>
  C4, as the code has it. The loader turns every failure into the ordinary return value
  \<open>(None, message)\<close>, and the cache stores whatever the loader returns: when a call runs
  the loader and the load fails, the failure becomes the entry of the key, stamped with the
  time of the call, and every call with that key before the time to live has passed
  returns the cached failure without running the loader. An entry that has not expired is
  never replaced, since the loader does not run while it is valid.
\<close>

theorem failure_is_cached:
  "(invoked (cached_load now svc c creds url)
      \<and> fst (returned (cached_load now svc c creds url)) = None \<longrightarrow>
      cache_after (cached_load now svc c creds url) (creds, url)
        = Some \<lparr>cached = returned (cached_load now svc c creds url), stored_at = now\<rparr>
      \<and> (\<forall>t2 svc2. t2 < now + ttl \<longrightarrow>
            cached_load t2 svc2 (cache_after (cached_load now svc c creds url)) creds url
            = \<lparr>returned = returned (cached_load now svc c creds url),
               cache_after = cache_after (cached_load now svc c creds url),
               invoked = False\<rparr>))
   \<and> (\<forall>e. c (creds, url) = Some e \<and> now < stored_at e + ttl \<longrightarrow>
         cached_load now svc c creds url
         = \<lparr>returned = cached e, cache_after = c, invoked = False\<rparr>)"
proof (intro conjI impI allI)
  assume a: "invoked (cached_load now svc c creds url)
      \<and> fst (returned (cached_load now svc c creds url)) = None"
  then have i: "invoked (cached_load now svc c creds url)" by simp
  show "cache_after (cached_load now svc c creds url) (creds, url)
        = Some \<lparr>cached = returned (cached_load now svc c creds url), stored_at = now\<rparr>"
    unfolding cached_load_miss [OF i] by simp
  fix t2 svc2
  assume "t2 < now + ttl"
  with cached_load_again [OF i, of t2 svc2]
  show "cached_load t2 svc2 (cache_after (cached_load now svc c creds url)) creds url
            = \<lparr>returned = returned (cached_load now svc c creds url),
               cache_after = cache_after (cached_load now svc c creds url),
               invoked = False\<rparr>"
    by simp
next
  fix e
  assume "c (creds, url) = Some e \<and> now < stored_at e + ttl"
  then show "cached_load now svc c creds url
         = \<lparr>returned = cached e, cache_after = c, invoked = False\<rparr>"
    by (simp add: cached_load_entry)
qed

theorem failure_is_cached_example:
  "invoked (cached_load 300 service_down stale_cache some_credentials some_url)
   \<and> returned (cached_load 300 service_down stale_cache some_credentials some_url)
       = (None, Some ''APIError: service unavailable'')
   \<and> returned (cached_load 599 (service_up template_table)
        (cache_after (cached_load 300 service_down stale_cache some_credentials some_url))
        some_credentials some_url) = (None, Some ''APIError: service unavailable'')
   \<and> cached_load 299 service_down stale_cache some_credentials some_url
       = \<lparr>returned = (Some template_table, None), cache_after = stale_cache, invoked = False\<rparr>"
proof -
  let ?old = "\<lparr>cached = (Some template_table, None), stored_at = 0\<rparr>"
  have entry: "stale_cache (some_credentials, some_url) = Some ?old"
    by (simp add: stale_cache_def)
  have i: "invoked (cached_load 300 service_down stale_cache some_credentials some_url)"
    by (simp add: cached_load_entry [where c = stale_cache and creds = some_credentials and url = some_url, OF entry] ttl_def)
  have r: "returned (cached_load 300 service_down stale_cache some_credentials some_url)
      = (None, Some ''APIError: service unavailable'')"
    by (simp add: cached_load_entry [where c = stale_cache and creds = some_credentials and url = some_url, OF entry] ttl_def load_service_down)
  note late = failure_is_cached [of 300 service_down stale_cache some_credentials some_url]
  note early = failure_is_cached [of 299 service_down stale_cache some_credentials some_url]
  from late i r have "cached_load 599 (service_up template_table)
        (cache_after (cached_load 300 service_down stale_cache some_credentials some_url))
        some_credentials some_url
      = \<lparr>returned = returned (cached_load 300 service_down stale_cache some_credentials some_url),
         cache_after = cache_after (cached_load 300 service_down stale_cache some_credentials some_url),
         invoked = False\<rparr>"
    by (simp add: ttl_def)
  moreover from early entry
  have "cached_load 299 service_down stale_cache some_credentials some_url
       = \<lparr>returned = cached ?old, cache_after = stale_cache, invoked = False\<rparr>"
    by (simp add: ttl_def)
  ultimately show ?thesis using i r by simp
qed

text \<open>
  C4, as claimed, fails: the cache holds a successful load of the template table stored at
  time 0; at time 300 the entry has expired, the loader runs and the read of the sheet
  fails. The failure is returned and takes the place of the entry, so the cache is not what
  it was, and one second later, with the service working again, the call still returns the
  cached failure without running the loader.
\<close>

theorem failure_replaces_entry:
  "stale_cache (some_credentials, some_url)
     = Some \<lparr>cached = (Some template_table, None), stored_at = 0\<rparr>
   \<and> returned (cached_load 300 service_down stale_cache some_credentials some_url)
       = (None, Some ''APIError: service unavailable'')
   \<and> cache_after (cached_load 300 service_down stale_cache some_credentials some_url)
        (some_credentials, some_url)
       = Some \<lparr>cached = (None, Some ''APIError: service unavailable''), stored_at = 300\<rparr>
   \<and> cache_after (cached_load 300 service_down stale_cache some_credentials some_url) \<noteq> stale_cache
   \<and> returned (cached_load 301 (service_up template_table)
        (cache_after (cached_load 300 service_down stale_cache some_credentials some_url))
        some_credentials some_url) = (None, Some ''APIError: service unavailable'')
   \<and> \<not> invoked (cached_load 301 (service_up template_table)
        (cache_after (cached_load 300 service_down stale_cache some_credentials some_url))
        some_credentials some_url)"
proof -
  let ?old = "\<lparr>cached = (Some template_table, None), stored_at = 0\<rparr>"
  let ?new = "\<lparr>cached = (None, Some ''APIError: service unavailable''), stored_at = 300\<rparr>"
  have entry: "stale_cache (some_credentials, some_url) = Some ?old"
    by (simp add: stale_cache_def)
  have first: "cached_load 300 service_down stale_cache some_credentials some_url
      = \<lparr>returned = (None, Some ''APIError: service unavailable''),
         cache_after = stale_cache((some_credentials, some_url) \<mapsto> ?new),
         invoked = True\<rparr>"
    by (simp add: cached_load_entry [where c = stale_cache and creds = some_credentials and url = some_url, OF entry] ttl_def load_service_down)
  have after: "(stale_cache((some_credentials, some_url) \<mapsto> ?new)) (some_credentials, some_url)
      = Some ?new"
    by simp
  have changed: "stale_cache((some_credentials, some_url) \<mapsto> ?new) \<noteq> stale_cache"
  proof
    assume "stale_cache((some_credentials, some_url) \<mapsto> ?new) = stale_cache"
    then have "(stale_cache((some_credentials, some_url) \<mapsto> ?new)) (some_credentials, some_url)
        = stale_cache (some_credentials, some_url)"
      by simp
    then show False by (simp add: entry)
  qed
  have second: "cached_load 301 (service_up template_table)
        (stale_cache((some_credentials, some_url) \<mapsto> ?new)) some_credentials some_url
      = \<lparr>returned = (None, Some ''APIError: service unavailable''),
         cache_after = stale_cache((some_credentials, some_url) \<mapsto> ?new),
         invoked = False\<rparr>"
    by (simp add: cached_load_entry [where c = "stale_cache((some_credentials, some_url) \<mapsto> ?new)" and creds = some_credentials and url = some_url, OF after] ttl_def)
  show ?thesis
    unfolding first by (simp add: entry changed second)
qed

text \<open>
  C8, as the code has it. Nothing validates the table. On a table that misses a required
  column the page is laid out as on any other: the metrics are computed and shown, and each
  of the three views is run on the table. The sales-by-unit view and the monthly view read
  every required column, so each of them catches its own error, reports it and returns the
  empty frame, and the page shows the report followed by the no-data warning.
\<close>

theorem no_schema_validation:
  assumes "missing_required df"
  shows "\<exists>e1 e2.
           plot_top_right df
             = [St_error ''Error processing sales data by unit'' e1,
                St_warning ''No data available for sales by business unit'']
         \<and> plot_bottom_left df
             = [St_error ''Error processing monthly sales data'' e2,
                St_warning ''No data available for monthly sales trend'']
         \<and> main_layout parse df
             = snd (calculate_metrics df)
               @ [Metric ''Total Accounts Receivable'' (accounts_receivable (fst (calculate_metrics df))),
                  Gauge ''Current Ratio'' (current_ratio (fst (calculate_metrics df))),
                  Metric ''Total Accounts Payable'' (accounts_payable (fst (calculate_metrics df))),
                  Gauge ''In Stock'' 10,
                  Ratio ''Equity Ratio'' (equity_ratio (fst (calculate_metrics df))),
                  Gauge ''Out Stock'' 7,
                  Ratio ''Debt Equity'' (debt_equity (fst (calculate_metrics df))),
                  Gauge ''Delay'' 28]
               @ [St_error ''Error processing sales data by unit'' e1,
                  St_warning ''No data available for sales by business unit'',
                  St_error ''Error processing monthly sales data'' e2,
                  St_warning ''No data available for monthly sales trend'']
               @ plot_bottom_right parse df"
proof -
  from missing_required_column [OF assms]
  obtain c where c: "c \<in> set (key_columns @ all_months)" "c \<notin> set (columns df)" by blast
  from sales_by_unit_body_missing [OF c] obtain e1 where "sales_by_unit_body df = Inl e1" by blast
  then have top: "plot_top_right df
             = [St_error ''Error processing sales data by unit'' e1,
                St_warning ''No data available for sales by business unit'']"
    by (simp add: plot_top_right_def process_sales_data_by_unit_def DataFrame_def is_empty_def)
  from monthly_sales_body_missing [OF c] obtain e2 where "monthly_sales_body df = Inl e2" by blast
  then have left: "plot_bottom_left df
             = [St_error ''Error processing monthly sales data'' e2,
                St_warning ''No data available for monthly sales trend'']"
    by (simp add: plot_bottom_left_def process_monthly_sales_data_def DataFrame_def is_empty_def)
  have "main_layout parse df
             = snd (calculate_metrics df)
               @ [Metric ''Total Accounts Receivable'' (accounts_receivable (fst (calculate_metrics df))),
                  Gauge ''Current Ratio'' (current_ratio (fst (calculate_metrics df))),
                  Metric ''Total Accounts Payable'' (accounts_payable (fst (calculate_metrics df))),
                  Gauge ''In Stock'' 10,
                  Ratio ''Equity Ratio'' (equity_ratio (fst (calculate_metrics df))),
                  Gauge ''Out Stock'' 7,
                  Ratio ''Debt Equity'' (debt_equity (fst (calculate_metrics df))),
                  Gauge ''Delay'' 28]
               @ [St_error ''Error processing sales data by unit'' e1,
                  St_warning ''No data available for sales by business unit'',
                  St_error ''Error processing monthly sales data'' e2,
                  St_warning ''No data available for monthly sales trend'']
               @ plot_bottom_right parse df"
    by (simp add: main_layout_def top left split: prod.splits)
  with top left show ?thesis by blast
qed

theorem no_schema_validation_no_months:
  "missing_required no_months_table
   \<and> plot_top_right no_months_table
       = [St_error ''Error processing sales data by unit'' (KeyError all_months),
          St_warning ''No data available for sales by business unit'']
   \<and> plot_bottom_left no_months_table
       = [St_error ''Error processing monthly sales data'' (KeyError all_months),
          St_warning ''No data available for monthly sales trend'']
   \<and> plot_bottom_right parse_digits no_months_table
       = [St_warning ''No data available for yearly account sales'']"
proof -
  have m: "missing_required no_months_table" by code_simp
  from no_schema_validation [OF m, of parse_digits] obtain e1 e2 where
    top: "plot_top_right no_months_table
             = [St_error ''Error processing sales data by unit'' e1,
                St_warning ''No data available for sales by business unit'']"
    and left: "plot_bottom_left no_months_table
             = [St_error ''Error processing monthly sales data'' e2,
                St_warning ''No data available for monthly sales trend'']"
    by blast
  have "hd (plot_top_right no_months_table)
        = St_error ''Error processing sales data by unit'' (KeyError all_months)"
    by code_simp
  with top have e1: "e1 = KeyError all_months" by simp
  have "hd (plot_bottom_left no_months_table)
        = St_error ''Error processing monthly sales data'' (KeyError all_months)"
    by code_simp
  with left have e2: "e2 = KeyError all_months" by simp
  have right: "plot_bottom_right parse_digits no_months_table
       = [St_warning ''No data available for yearly account sales'']"
    by code_simp
  from m top left right show ?thesis unfolding e1 e2 by simp
qed

text \<open>
  C8, as claimed, fails: the table without the Account column misses a required column, yet
  the page shows no validation error. The metric computation and each of the three views
  ran on the table and each reports the KeyError it caught itself.
\<close>

theorem page_without_account_column:
  "missing_required no_account_table
   \<and> main_layout parse_digits no_account_table
       = [St_error ''Error calculating metrics'' (KeyError [''Account'']),
          Metric ''Total Accounts Receivable'' (Num 0),
          Gauge ''Current Ratio'' 0,
          Metric ''Total Accounts Payable'' (Num 0),
          Gauge ''In Stock'' 10,
          Ratio ''Equity Ratio'' 0,
          Gauge ''Out Stock'' 7,
          Ratio ''Debt Equity'' 0,
          Gauge ''Delay'' 28,
          St_error ''Error processing sales data by unit'' (KeyError [''Account'']),
          St_warning ''No data available for sales by business unit'',
          St_error ''Error processing monthly sales data'' (KeyError [''Account'']),
          St_warning ''No data available for monthly sales trend'',
          St_error ''Error processing yearly account data'' (KeyError [''Account'']),
          St_warning ''No data available for yearly account sales'']"
proof -
  have "missing_required no_account_table" by code_simp
  moreover have "calculate_metrics no_account_table
      = (zero_metrics, [St_error ''Error calculating metrics'' (KeyError [''Account''])])"
    by code_simp
  moreover have "plot_top_right no_account_table
      = [St_error ''Error processing sales data by unit'' (KeyError [''Account'']),
         St_warning ''No data available for sales by business unit'']"
    by code_simp
  moreover have "plot_bottom_left no_account_table
      = [St_error ''Error processing monthly sales data'' (KeyError [''Account'']),
         St_warning ''No data available for monthly sales trend'']"
    by code_simp
  moreover have "plot_bottom_right parse_digits no_account_table
      = [St_error ''Error processing yearly account data'' (KeyError [''Account'']),
         St_warning ''No data available for yearly account sales'']"
    by code_simp
  ultimately show ?thesis
    by (simp add: main_layout_def zero_metrics_def)
qed

end
